theory Spec2Isabelle
  imports Complex_Main "HOL-Library.Word"
begin

section \<open>The syntax tree handed to the analyzer\<close>

text \<open>
  The analyzer of \<^verbatim>\<open>pkg/analyzer\<close> works on the tree of \<^verbatim>\<open>go/ast\<close> and on the
  type information of \<^verbatim>\<open>go/types\<close>. Both belong to the Go distribution; what follows is
  the part of them the analyzer reads.

  A position (\<^verbatim>\<open>token.Pos\<close>) is an integer. Tokens are the values of \<^verbatim>\<open>token.Token\<close> that occur
  as the kind of a literal or as an operator.
\<close>

type_synonym pos = int

datatype token =
    token_INT | token_FLOAT | token_IMAG | token_CHAR | token_STRING
  | token_INC | token_DEC | token_REM | token_ADD | token_SUB | token_MUL | token_QUO
  | token_LSS | token_GTR | token_ASSIGN | token_DEFINE | token_ARROW
  | token_other string

text \<open>\<^verbatim>\<open>*ast.Ident\<close>: the position of the name and the name.\<close>

datatype ident = MkIdent (NamePos: pos) (Name: string)

text \<open>
  One constructor for each node kind the analyzer tells apart, a few more for the
  statements of the usual generator body, and \<open>OtherNode\<close> for every remaining kind of
  \<^verbatim>\<open>go/ast\<close> (its position and its children in the order \<^verbatim>\<open>ast.Walk\<close> visits them): the
  analyzer never distinguishes those from one another.

  A field of static type \<^verbatim>\<open>*ast.BlockStmt\<close> is the pair of the brace position and the
  statement list; it is optional where the analyzer compares it with \<^verbatim>\<open>nil\<close>
  (\<^verbatim>\<open>FuncLit.Body\<close>, \<^verbatim>\<open>SelectStmt.Body\<close>). A field of static type \<^verbatim>\<open>*ast.CallExpr\<close>
  (\<^verbatim>\<open>GoStmt.Call\<close>, \<^verbatim>\<open>DeferStmt.Call\<close>) is given by the call's \<^verbatim>\<open>Fun\<close> and \<^verbatim>\<open>Args\<close>.
  Fields the analyzer and \<^verbatim>\<open>Pos\<close> never read (parenthesis positions, channel direction)
  are left out.
\<close>

datatype node =
    Ident ident
  | BasicLit pos token string                \<comment> \<open>ValuePos, Kind, Value\<close>
  | BinaryExpr node token node               \<comment> \<open>X, Op, Y\<close>
  | UnaryExpr pos token node                 \<comment> \<open>OpPos, Op, X\<close>
  | CallExpr node "node list"                \<comment> \<open>Fun, Args\<close>
  | SelectorExpr node ident                  \<comment> \<open>X, Sel\<close>
  | IndexExpr node node                      \<comment> \<open>X, Index\<close>
  | ChanType pos node                        \<comment> \<open>Begin, Value\<close>
  | FuncType pos "node list"                 \<comment> \<open>Func, the field lists\<close>
  | FuncLit node "(pos \<times> node list) option" \<comment> \<open>Type, Body\<close>
  | AssignStmt "node list" token "node list" \<comment> \<open>Lhs, Tok, Rhs\<close>
  | GoStmt pos node "node list"              \<comment> \<open>Go, Call.Fun, Call.Args\<close>
  | DeferStmt pos node "node list"           \<comment> \<open>Defer, Call.Fun, Call.Args\<close>
  | SendStmt node node                       \<comment> \<open>Chan, Value\<close>
  | IncDecStmt node token                    \<comment> \<open>X, Tok\<close>
  | ExprStmt node                            \<comment> \<open>X\<close>
  | ReturnStmt pos "node list"               \<comment> \<open>Return, Results\<close>
  | RangeStmt pos "node option" "node option" node "pos \<times> node list"
      \<comment> \<open>For, Key, Value, X, Body\<close>
  | ForStmt pos "node option" "node option" "node option" "pos \<times> node list"
      \<comment> \<open>For, Init, Cond, Post, Body\<close>
  | SelectStmt pos "(pos \<times> node list) option" \<comment> \<open>Select, Body\<close>
  | CommClause pos "node option" "node list" \<comment> \<open>Case, Comm (nil for default), Body\<close>
  | BlockStmt pos "node list"                \<comment> \<open>Lbrace, List\<close>
  | OtherNode pos "node list"

type_synonym block = "pos \<times> node list"

definition Lbrace :: "block \<Rightarrow> pos" where
  "Lbrace b = fst b"

definition List :: "block \<Rightarrow> node list" where
  "List b = snd b"

text \<open>The node of a block, as \<^verbatim>\<open>ast.Inspect\<close> receives it.\<close>

definition BlockNode :: "block \<Rightarrow> node" where
  "BlockNode b = BlockStmt (Lbrace b) (List b)"

text \<open>An optional child: none for \<^verbatim>\<open>nil\<close>.\<close>

fun opt :: "'a option \<Rightarrow> 'a list" where
  "opt None = []"
| "opt (Some x) = [x]"

text \<open>
  The children of a node in the order of \<^verbatim>\<open>ast.Walk\<close>. In a parsed tree the body of a
  function literal and of a select statement is never \<^verbatim>\<open>nil\<close> (\<^verbatim>\<open>ast.Walk\<close> dereferences
  it); a \<^verbatim>\<open>nil\<close> body has no children here.
\<close>

fun children :: "node \<Rightarrow> node list" where
  "children (Ident i) = []"
| "children (BasicLit p k v) = []"
| "children (BinaryExpr x op y) = [x, y]"
| "children (UnaryExpr p op x) = [x]"
| "children (CallExpr f args) = f # args"
| "children (SelectorExpr x sel) = [x, Ident sel]"
| "children (IndexExpr x i) = [x, i]"
| "children (ChanType p v) = [v]"
| "children (FuncType p fs) = fs"
| "children (FuncLit t b) = t # map BlockNode (opt b)"
| "children (AssignStmt lhs tok rhs) = lhs @ rhs"
| "children (GoStmt p f args) = [CallExpr f args]"
| "children (DeferStmt p f args) = [CallExpr f args]"
| "children (SendStmt c v) = [c, v]"
| "children (IncDecStmt x tok) = [x]"
| "children (ExprStmt x) = [x]"
| "children (ReturnStmt p rs) = rs"
| "children (RangeStmt p k v x b) = opt k @ opt v @ [x, BlockNode b]"
| "children (ForStmt p i c po b) = opt i @ opt c @ opt po @ [BlockNode b]"
| "children (SelectStmt p b) = map BlockNode (opt b)"
| "children (CommClause p c b) = opt c @ b"
| "children (BlockStmt p l) = l"
| "children (OtherNode p l) = l"

text \<open>
  The number of constructors of a tree. The children of a go, defer, for, range or
  select statement and of a function literal are rebuilt from its fields (a call, a
  block), so the measure counts the rebuilt node too.
\<close>

fun weight :: "node \<Rightarrow> nat" where
  "weight (Ident i) = 1"
| "weight (BasicLit p k v) = 1"
| "weight (BinaryExpr x op y) = Suc (weight x + weight y)"
| "weight (UnaryExpr p op x) = Suc (weight x)"
| "weight (CallExpr f args) = Suc (weight f + sum_list (map weight args))"
| "weight (SelectorExpr x sel) = Suc (Suc (weight x))"
| "weight (IndexExpr x i) = Suc (weight x + weight i)"
| "weight (ChanType p v) = Suc (weight v)"
| "weight (FuncType p fs) = Suc (sum_list (map weight fs))"
| "weight (FuncLit t b) =
     Suc (Suc (weight t + (case b of None \<Rightarrow> 0 | Some (p, l) \<Rightarrow> sum_list (map weight l))))"
| "weight (AssignStmt lhs tok rhs) =
     Suc (sum_list (map weight lhs) + sum_list (map weight rhs))"
| "weight (GoStmt p f args) = Suc (Suc (weight f + sum_list (map weight args)))"
| "weight (DeferStmt p f args) = Suc (Suc (weight f + sum_list (map weight args)))"
| "weight (SendStmt c v) = Suc (weight c + weight v)"
| "weight (IncDecStmt x tok) = Suc (weight x)"
| "weight (ExprStmt x) = Suc (weight x)"
| "weight (ReturnStmt p rs) = Suc (sum_list (map weight rs))"
| "weight (RangeStmt p k v x b) =
     Suc (Suc ((case k of None \<Rightarrow> 0 | Some n \<Rightarrow> weight n)
       + (case v of None \<Rightarrow> 0 | Some n \<Rightarrow> weight n)
       + weight x + (case b of (q, l) \<Rightarrow> sum_list (map weight l))))"
| "weight (ForStmt p i c po b) =
     Suc (Suc ((case i of None \<Rightarrow> 0 | Some n \<Rightarrow> weight n)
       + (case c of None \<Rightarrow> 0 | Some n \<Rightarrow> weight n)
       + (case po of None \<Rightarrow> 0 | Some n \<Rightarrow> weight n)
       + (case b of (q, l) \<Rightarrow> sum_list (map weight l))))"
| "weight (SelectStmt p b) =
     Suc (Suc (case b of None \<Rightarrow> 0 | Some (q, l) \<Rightarrow> sum_list (map weight l)))"
| "weight (CommClause p c b) =
     Suc ((case c of None \<Rightarrow> 0 | Some n \<Rightarrow> weight n) + sum_list (map weight b))"
| "weight (BlockStmt p l) = Suc (sum_list (map weight l))"
| "weight (OtherNode p l) = Suc (sum_list (map weight l))"

lemma weight_member: "x \<in> set xs \<Longrightarrow> weight x \<le> sum_list (map weight xs)"
  by (induction xs) auto

lemma children_weight: "c \<in> set (children n) \<Longrightarrow> weight c < weight n"
  by (cases n)
     (auto simp: BlockNode_def Lbrace_def List_def less_Suc_eq_le
           dest: weight_member split: option.splits prod.splits)


section \<open>Traversal\<close>

text \<open>
  \<^verbatim>\<open>ast.Inspect(node, f)\<close> calls \<open>f\<close> on the node; if \<open>f\<close> returns true it inspects the
  children in order and then calls \<open>f(nil)\<close>, whose result is dropped. The closure \<open>f\<close>
  updates variables of the enclosing function: here it takes their state and returns
  it with its boolean.
\<close>

function Inspect :: "(node option \<Rightarrow> 's \<Rightarrow> bool \<times> 's) \<Rightarrow> node \<Rightarrow> 's \<Rightarrow> 's" where
  "Inspect f n s =
     (case f (Some n) s of
        (False, s1) \<Rightarrow> s1
      | (True, s1) \<Rightarrow> snd (f None (fold (Inspect f) (children n) s1)))"
  by pat_completeness auto
termination
  by (relation "measure (\<lambda>(f, n, s). weight n)") (auto simp: children_weight)

text \<open>A node and everything below it, in the order an unpruned traversal meets them.\<close>

function subnodes :: "node \<Rightarrow> node list" where
  "subnodes n = n # concat (map subnodes (children n))"
  by pat_completeness auto
termination
  by (relation "measure weight") (auto simp: children_weight)

declare Inspect.simps [simp del]
declare subnodes.simps [simp del]

lemma subnodes_self: "n \<in> set (subnodes n)"
  by (subst subnodes.simps) simp

lemma subnodes_child:
  "c \<in> set (children n) \<Longrightarrow> m \<in> set (subnodes c) \<Longrightarrow> m \<in> set (subnodes n)"
  by (subst subnodes.simps) auto

lemma subnodes_trans:
  "m \<in> set (subnodes c) \<Longrightarrow> c \<in> set (subnodes n) \<Longrightarrow> m \<in> set (subnodes n)"
proof (induction n rule: subnodes.induct)
  case (1 n)
  from "1.prems"(2) have "c = n \<or> (\<exists>d\<in>set (children n). c \<in> set (subnodes d))"
    by (subst (asm) subnodes.simps) auto
  then show ?case
  proof
    assume "c = n"
    with "1.prems"(1) show ?thesis by simp
  next
    assume "\<exists>d\<in>set (children n). c \<in> set (subnodes d)"
    then obtain d where d: "d \<in> set (children n)" "c \<in> set (subnodes d)" by blast
    from "1.IH" [OF d(1) "1.prems"(1) d(2)] d(1) show ?thesis
      by (rule_tac subnodes_child)
  qed
qed

text \<open>
  A visitor that keeps one flag, stops below a node once the flag is set and sets it
  exactly at the nodes satisfying \<open>P\<close>: the traversal returns whether some node
  satisfies \<open>P\<close>, wherever it is.
\<close>

lemma fold_Inspect_found:
  assumes "\<And>x b. x \<in> set xs \<Longrightarrow> Inspect f x b = (b \<or> (\<exists>m\<in>set (subnodes x). P m))"
  shows "fold (Inspect f) xs b = (b \<or> (\<exists>x\<in>set xs. \<exists>m\<in>set (subnodes x). P m))"
  using assms by (induction xs arbitrary: b) auto

lemma Inspect_found:
  assumes stop: "\<And>n. f n True = (False, True)"
    and visit: "\<And>n. f (Some n) False = (\<not> P n, P n)"
    and nil: "snd (f None False) = False"
  shows "Inspect f n b = (b \<or> (\<exists>m\<in>set (subnodes n). P m))"
proof (induction n arbitrary: b rule: subnodes.induct)
  case (1 n)
  show ?case
  proof (cases b)
    case True
    then show ?thesis by (simp add: Inspect.simps stop)
  next
    case False
    show ?thesis
    proof (cases "P n")
      case True
      with False show ?thesis
        using subnodes_self [of n] by (auto simp: Inspect.simps visit)
    next
      case notP: False
      have kids: "fold (Inspect f) (children n) False =
          (\<exists>x\<in>set (children n). \<exists>m\<in>set (subnodes x). P m)"
        using fold_Inspect_found [of "children n" f P False] "1.IH" by simp
      have after: "snd (f None c) = c" for c
        by (cases c) (simp_all add: stop nil)
      have "Inspect f n False = (\<exists>x\<in>set (children n). \<exists>m\<in>set (subnodes x). P m)"
        by (simp add: Inspect.simps visit notP kids after)
      also have "\<dots> = (\<exists>m\<in>set (subnodes n). P m)"
        using notP by (subst (2) subnodes.simps) auto
      finally show ?thesis using False by simp
    qed
  qed
qed

text \<open>
  A visitor that always returns true and does nothing on \<^verbatim>\<open>nil\<close>: the traversal folds
  its update over all nodes.
\<close>

lemma fold_Inspect_all:
  assumes "\<And>x s. x \<in> set xs \<Longrightarrow> Inspect f x s = fold g (subnodes x) s"
  shows "fold (Inspect f) xs s = fold g (concat (map subnodes xs)) s"
  using assms by (induction xs arbitrary: s) auto

lemma Inspect_all:
  assumes visit: "\<And>n s. f (Some n) s = (True, g n s)"
    and nil: "\<And>s. snd (f None s) = s"
  shows "Inspect f n s = fold g (subnodes n) s"
proof (induction n arbitrary: s rule: subnodes.induct)
  case (1 n)
  have "fold (Inspect f) (children n) (g n s) =
      fold g (concat (map subnodes (children n))) (g n s)"
    using fold_Inspect_all [of "children n" f g] "1.IH" by simp
  then show ?case
    by (subst subnodes.simps) (simp add: Inspect.simps visit nil)
qed


section \<open>Positions and type information\<close>

text \<open>
  The \<^verbatim>\<open>Pos\<close> method of \<^verbatim>\<open>go/ast\<close>: the position of the first character of a node. An
  assignment starts where its first left-hand side starts (\<^verbatim>\<open>s.Lhs[0].Pos()\<close>; the
  parser gives every assignment a left-hand side, and \<^verbatim>\<open>extractMakeChan\<close> asks only
  when there is exactly one), a call where its function expression starts.
\<close>

fun Pos_node :: "node \<Rightarrow> pos" where
  "Pos_node (Ident i) = NamePos i"
| "Pos_node (BasicLit p k v) = p"
| "Pos_node (BinaryExpr x op y) = Pos_node x"
| "Pos_node (UnaryExpr p op x) = p"
| "Pos_node (CallExpr f args) = Pos_node f"
| "Pos_node (SelectorExpr x sel) = Pos_node x"
| "Pos_node (IndexExpr x i) = Pos_node x"
| "Pos_node (ChanType p v) = p"
| "Pos_node (FuncType p fs) = p"
| "Pos_node (FuncLit t b) = Pos_node t"
| "Pos_node (AssignStmt [] tok rhs) = 0"
| "Pos_node (AssignStmt (x # xs) tok rhs) = Pos_node x"
| "Pos_node (GoStmt p f args) = p"
| "Pos_node (DeferStmt p f args) = p"
| "Pos_node (SendStmt c v) = Pos_node c"
| "Pos_node (IncDecStmt x tok) = Pos_node x"
| "Pos_node (ExprStmt x) = Pos_node x"
| "Pos_node (ReturnStmt p rs) = p"
| "Pos_node (RangeStmt p k v x b) = p"
| "Pos_node (ForStmt p i c po b) = p"
| "Pos_node (SelectStmt p b) = p"
| "Pos_node (CommClause p c b) = p"
| "Pos_node (BlockStmt p l) = p"
| "Pos_node (OtherNode p l) = p"

text \<open>
  Types of \<^verbatim>\<open>go/types\<close>, as far as the analyzer looks: whether a type, or the underlying
  type of a named type, is a channel type.
\<close>

datatype gotype =
    TChan gotype
  | TNamed string gotype   \<comment> \<open>a defined type and the type it is defined as\<close>
  | TSlice gotype
  | TMap gotype gotype
  | TBasic string

fun Underlying :: "gotype \<Rightarrow> gotype" where
  "Underlying (TNamed n t) = Underlying t"
| "Underlying t = t"

fun isChan :: "gotype \<Rightarrow> bool" where
  "isChan (TChan t) = True"
| "isChan t = False"

text \<open>
  Objects of \<^verbatim>\<open>go/types\<close>: an imported package with its path, a variable with its kind
  (parameter, local variable, ...) and type, or any other object with its type.
\<close>

datatype VarKind = PackageVar | LocalVar | RecvVar | ParamVar | ResultVar | FieldVar

datatype object =
    PkgName string
  | Var VarKind gotype
  | OtherObject gotype

text \<open>\<^verbatim>\<open>obj.Type()\<close>; a package name has the invalid type.\<close>

fun Type_object :: "object \<Rightarrow> gotype" where
  "Type_object (PkgName path) = TBasic ''invalid type''"
| "Type_object (Var k t) = t"
| "Type_object (OtherObject t) = t"

text \<open>
  A field of a result list, a function declaration (with the parameter and result
  lists of its \<^verbatim>\<open>Type\<close>; \<open>Results\<close> and \<open>Body\<close> may be \<^verbatim>\<open>nil\<close>), a declaration and a file.
\<close>

record ast_Field =
  Names :: "ident list"
  Type :: node

record FuncDecl =
  FuncName :: ident
  Params :: "ast_Field list"
  Results :: "ast_Field list option"
  Body :: "block option"

datatype Decl = FuncDeclD FuncDecl | GenDecl pos

record ast_File =
  Decls :: "Decl list"

text \<open>
  The pass: the files and the two queries of \<^verbatim>\<open>pass.TypesInfo\<close> the analyzer makes. Go
  keys both maps by the node's address; a node here determines its occurrence through
  the positions it carries.
\<close>

record Pass =
  Files :: "ast_File list"
  Types :: "node \<rightharpoonup> gotype"
  ObjectOf :: "ident \<rightharpoonup> object"

section \<open>Patterns and the registry (patterns.go)\<close>

datatype Pattern =
    Unknown | IDGenerator | RoundRobin | RateLimiter | ConfigBroadcaster
  | BoundedIterator | CircuitBreaker | ChanSemaphore | Singleton | FixedFanIn
  | ChanTicker

record PatternSpec =
  Replacement :: string
  Speedup :: string
  Rationale :: string

fun Registry :: "Pattern \<rightharpoonup> PatternSpec" where
  "Registry Unknown = None"
| "Registry IDGenerator = Some \<lparr>Replacement = ''atomic.AddInt64'', Speedup = ''~38x'',
     Rationale = ''counter in infinite loop needs only an atomic increment''\<rparr>"
| "Registry RoundRobin = Some \<lparr>Replacement = ''sync.Mutex + index'', Speedup = ''~10x'',
     Rationale = ''modular index cycling needs only a guarded counter''\<rparr>"
| "Registry RateLimiter = Some \<lparr>Replacement = ''sync.Mutex + token bucket'',
     Speedup = ''~8x'',
     Rationale = ''ticker-refilled token slot needs only mutex-guarded math''\<rparr>"
| "Registry ConfigBroadcaster = Some \<lparr>Replacement = ''atomic.Pointer / atomic.Value'',
     Speedup = ''~80x'',
     Rationale = ''latest-value store needs only an atomic pointer swap''\<rparr>"
| "Registry BoundedIterator = Some
     \<lparr>Replacement = ''range-over-func (Go 1.23+) or Next() iterator'', Speedup = ''~40x'',
     Rationale = ''finite iteration needs no goroutine or channel''\<rparr>"
| "Registry CircuitBreaker = Some \<lparr>Replacement = ''atomic.Int32'', Speedup = ''~127x'',
     Rationale = ''state enum in buffered chan(1) needs only an atomic int''\<rparr>"
| "Registry ChanSemaphore = Some \<lparr>Replacement = ''x/sync/semaphore.Weighted'',
     Speedup = ''~8x'',
     Rationale = ''concurrency limiting chan struct{} is slower than semaphore''\<rparr>"
| "Registry Singleton = Some \<lparr>Replacement = ''sync.Once + value field'', Speedup = ''~19x'',
     Rationale = ''one-time value served via channel needs only sync.Once''\<rparr>"
| "Registry FixedFanIn = Some \<lparr>Replacement = ''sync.WaitGroup + append to slice'',
     Speedup = ''~8x'',
     Rationale = ''merging 2-3 fixed goroutines doesn't need a shared channel''\<rparr>"
| "Registry ChanTicker = Some \<lparr>Replacement = ''time.NewTicker directly'', Speedup = ''~15x'',
     Rationale = ''wrapping time.Sleep in goroutine+channel duplicates time.Ticker''\<rparr>"

text \<open>\<^verbatim>\<open>Registry[pat]\<close>: the zero value for a key the map does not have.\<close>

definition Registry_lookup :: "Pattern \<Rightarrow> PatternSpec" where
  "Registry_lookup pat =
     (case Registry pat of
        Some spec \<Rightarrow> spec
      | None \<Rightarrow> \<lparr>Replacement = [], Speedup = [], Rationale = []\<rparr>)"


section \<open>Detection (detect.go)\<close>

text \<open>Go's checked type assertions \<^verbatim>\<open>x.(*ast.T)\<close>: the fields when the node is of kind T.\<close>

fun asIdent :: "node \<Rightarrow> ident option" where
  "asIdent (Ident i) = Some i"
| "asIdent n = None"

fun asCallExpr :: "node \<Rightarrow> (node \<times> node list) option" where
  "asCallExpr (CallExpr f args) = Some (f, args)"
| "asCallExpr n = None"

fun asSelectorExpr :: "node \<Rightarrow> (node \<times> ident) option" where
  "asSelectorExpr (SelectorExpr x sel) = Some (x, sel)"
| "asSelectorExpr n = None"

fun asBinaryExpr :: "node \<Rightarrow> (node \<times> token \<times> node) option" where
  "asBinaryExpr (BinaryExpr x op y) = Some (x, op, y)"
| "asBinaryExpr n = None"

fun asBasicLit :: "node \<Rightarrow> (pos \<times> token \<times> string) option" where
  "asBasicLit (BasicLit p k v) = Some (p, k, v)"
| "asBasicLit n = None"

fun asChanType :: "node \<Rightarrow> (pos \<times> node) option" where
  "asChanType (ChanType p v) = Some (p, v)"
| "asChanType n = None"

fun asFuncLit :: "node \<Rightarrow> (node \<times> block option) option" where
  "asFuncLit (FuncLit t b) = Some (t, b)"
| "asFuncLit n = None"

text \<open>
  \<^verbatim>\<open>channelProducer\<close>. The function literal is its \<^verbatim>\<open>Type\<close> and \<^verbatim>\<open>Body\<close>; \<open>chanType\<close> is
  \<^verbatim>\<open>nil\<close> when the channel variable has no object or its type is not a channel type;
  \<open>bufSize\<close> is a Go \<^verbatim>\<open>int\<close>, 64 bits wide here, read with \<open>sint\<close>.
\<close>

record channelProducer =
  sends :: "node list"
  funcLit :: "node \<times> block option"
  chanIdent :: ident
  chanType :: "gotype option"
  makePos :: pos
  bufSize :: "64 word"

text \<open>\<^verbatim>\<open>returnsChan\<close>: some result field has a channel type written out.\<close>

fun returnsChan :: "ast_Field list \<Rightarrow> bool" where
  "returnsChan [] = False"
| "returnsChan (f # fs) = (if asChanType (Type f) \<noteq> None then True else returnsChan fs)"

text \<open>
  The loop \<^verbatim>\<open>for _, c := range lit.Value { buf = buf*10 + int(c-'0') }\<close>. The value of an
  integer token is ASCII, so every rune is one byte; the difference is taken as a rune
  (no overflow) and widened to \<^verbatim>\<open>int\<close>, the multiplication and the sum wrap.
\<close>

definition digit_step :: "char \<Rightarrow> 64 word \<Rightarrow> 64 word" where
  "digit_step c buf = buf * 10 + word_of_int (of_char c - 48)"

definition parse_buf :: "string \<Rightarrow> 64 word" where
  "parse_buf v = fold digit_step v 0"

text \<open>
  \<^verbatim>\<open>extractMakeChan\<close> on an assignment with the given \<^verbatim>\<open>Lhs\<close>, \<^verbatim>\<open>Tok\<close> and \<^verbatim>\<open>Rhs\<close>; \<open>None\<close>
  is the result \<^verbatim>\<open>(nil, 0, 0, false)\<close>.
\<close>

definition extractMakeChan ::
    "node list \<Rightarrow> token \<Rightarrow> node list \<Rightarrow> (ident \<times> pos \<times> 64 word) option" where
  "extractMakeChan lhs tok rhs =
     (if length lhs \<noteq> 1 \<or> length rhs \<noteq> 1 then None
      else case asIdent (lhs ! 0) of
        None \<Rightarrow> None
      | Some idn \<Rightarrow>
         (case asCallExpr (rhs ! 0) of
            None \<Rightarrow> None
          | Some (f, args) \<Rightarrow>
             (case asIdent f of
                None \<Rightarrow> None
              | Some fn \<Rightarrow>
                 if Name fn \<noteq> ''make'' then None
                 else if length args < 1 then None
                 else if asChanType (args ! 0) = None then None
                 else
                   let buf =
                     (if length args \<ge> 2 then
                        (case asBasicLit (args ! 1) of
                           Some (p, kind, v) \<Rightarrow> if kind = token_INT then parse_buf v else 0
                         | None \<Rightarrow> 0)
                      else 0)
                   in Some (idn, Pos_node (AssignStmt lhs tok rhs), buf))))"

text \<open>\<^verbatim>\<open>collectSends\<close>: the sends on a bare identifier of the given name, in traversal order.\<close>

fun collectSends_visit :: "string \<Rightarrow> node option \<Rightarrow> node list \<Rightarrow> bool \<times> node list" where
  "collectSends_visit chanName (Some (SendStmt c v)) snds =
     (case asIdent c of
        Some ident \<Rightarrow>
          if Name ident = chanName then (True, snds @ [SendStmt c v]) else (True, snds)
      | None \<Rightarrow> (True, snds))"
| "collectSends_visit chanName n snds = (True, snds)"

definition collectSends :: "node \<times> block option \<Rightarrow> string \<Rightarrow> node list" where
  "collectSends fl chanName =
     Inspect (collectSends_visit chanName) (FuncLit (fst fl) (snd fl)) []"

text \<open>
  The variables of the loop over the top-level statements of a function body, and one
  turn of that loop. A go statement is kept as its \<^verbatim>\<open>Go\<close> position and its call.
\<close>

record scan =
  chanVar :: "ident option"
  scan_makePos :: pos
  scan_bufSize :: "64 word"
  goStmts :: "(pos \<times> node \<times> node list) list"

definition scan_init :: scan where
  "scan_init = \<lparr>chanVar = None, scan_makePos = 0, scan_bufSize = 0, goStmts = []\<rparr>"

fun detect_stmt :: "node \<Rightarrow> scan \<Rightarrow> scan" where
  "detect_stmt (AssignStmt lhs tok rhs) st =
     (case extractMakeChan lhs tok rhs of
        Some (idn, p, buf) \<Rightarrow>
          st\<lparr>chanVar := Some idn, scan_makePos := p, scan_bufSize := buf\<rparr>
      | None \<Rightarrow> st)"
| "detect_stmt (GoStmt p f args) st = st\<lparr>goStmts := goStmts st @ [(p, f, args)]\<rparr>"
| "detect_stmt s st = st"

text \<open>
  The body of the loop of \<^verbatim>\<open>detect\<close> over the declarations, for a function declaration:
  the producer appended to \<^verbatim>\<open>results\<close>, or \<open>None\<close> where the loop continues without one.
\<close>

definition detect_func :: "Pass \<Rightarrow> FuncDecl \<Rightarrow> channelProducer option" where
  "detect_func pass fn =
     (case Body fn of
        None \<Rightarrow> None
      | Some body \<Rightarrow>
         (case Results fn of
            None \<Rightarrow> None
          | Some results \<Rightarrow>
             if \<not> returnsChan results then None
             else
               let st = fold detect_stmt (List body) scan_init in
               (case chanVar st of
                  None \<Rightarrow> None
                | Some cv \<Rightarrow>
                   if length (goStmts st) \<noteq> 1 then None
                   else
                     (case asFuncLit (fst (snd (goStmts st ! 0))) of
                        None \<Rightarrow> None
                      | Some fl \<Rightarrow>
                         let snds = collectSends fl (Name cv) in
                         if length snds = 0 then None
                         else
                           let ct =
                             (case ObjectOf pass cv of
                                Some obj \<Rightarrow>
                                  (if isChan (Type_object obj) then Some (Type_object obj)
                                   else None)
                              | None \<Rightarrow> None)
                           in Some \<lparr>sends = snds, funcLit = fl, chanIdent = cv,
                                chanType = ct, makePos = scan_makePos st,
                                bufSize = scan_bufSize st\<rparr>))))"

fun detect_decl :: "Pass \<Rightarrow> Decl \<Rightarrow> channelProducer list \<Rightarrow> channelProducer list" where
  "detect_decl pass (FuncDeclD fn) results =
     (case detect_func pass fn of Some cp \<Rightarrow> results @ [cp] | None \<Rightarrow> results)"
| "detect_decl pass d results = results"

definition detect :: "Pass \<Rightarrow> ast_File \<Rightarrow> channelProducer list" where
  "detect pass file = fold (detect_decl pass) (Decls file) []"


section \<open>Classification (classify.go)\<close>

record indicators =
  hasIncrement :: bool
  hasModulo :: bool
  hasIndexExpr :: bool
  hasRange :: bool
  hasClose :: bool
  hasTimeSleep :: bool
  hasTimeTicker :: bool
  infiniteLoop :: bool

definition indicators_zero :: indicators where
  "indicators_zero = \<lparr>hasIncrement = False, hasModulo = False, hasIndexExpr = False,
     hasRange = False, hasClose = False, hasTimeSleep = False, hasTimeTicker = False,
     infiniteLoop = False\<rparr>"

text \<open>The loop over the right-hand sides of an assignment.\<close>

definition modulo_step :: "node \<Rightarrow> indicators \<Rightarrow> indicators" where
  "modulo_step rhs ind =
     (case asBinaryExpr rhs of
        Some (x, op, y) \<Rightarrow> if op = token_REM then ind\<lparr>hasModulo := True\<rparr> else ind
      | None \<Rightarrow> ind)"

text \<open>The two tests made on a call: \<^verbatim>\<open>close(ch)\<close>, then a function of package \<^verbatim>\<open>time\<close>.\<close>

definition close_check :: "string \<Rightarrow> node \<Rightarrow> node list \<Rightarrow> indicators \<Rightarrow> indicators" where
  "close_check chanName f args ind =
     (case asIdent f of
        Some ident \<Rightarrow>
          if Name ident = ''close'' then
            (if length args = 1 then
               (case asIdent (args ! 0) of
                  Some arg \<Rightarrow> if Name arg = chanName then ind\<lparr>hasClose := True\<rparr> else ind
                | None \<Rightarrow> ind)
             else ind)
          else ind
      | None \<Rightarrow> ind)"

definition time_check :: "node \<Rightarrow> indicators \<Rightarrow> indicators" where
  "time_check f ind =
     (case asSelectorExpr f of
        Some (x, sel) \<Rightarrow>
          (case asIdent x of
             Some pkg \<Rightarrow>
               if Name pkg = ''time'' then
                 (if Name sel = ''Sleep'' then ind\<lparr>hasTimeSleep := True\<rparr>
                  else if Name sel = ''NewTicker'' \<or> Name sel = ''Tick''
                    then ind\<lparr>hasTimeTicker := True\<rparr>
                  else ind)
               else ind
           | None \<Rightarrow> ind)
      | None \<Rightarrow> ind)"

text \<open>The type switch of the closure of \<^verbatim>\<open>extractIndicators\<close>.\<close>

fun extractIndicators_node :: "string \<Rightarrow> Pass \<Rightarrow> node \<Rightarrow> indicators \<Rightarrow> indicators" where
  "extractIndicators_node chanName pass (IncDecStmt x tok) ind =
     (if tok = token_INC then ind\<lparr>hasIncrement := True\<rparr> else ind)"
| "extractIndicators_node chanName pass (AssignStmt lhs tok rhs) ind =
     fold modulo_step rhs ind"
| "extractIndicators_node chanName pass (IndexExpr x i) ind = ind\<lparr>hasIndexExpr := True\<rparr>"
| "extractIndicators_node chanName pass (RangeStmt p k v x b) ind =
     (case Types pass x of
        Some t \<Rightarrow> if \<not> isChan (Underlying t) then ind\<lparr>hasRange := True\<rparr> else ind
      | None \<Rightarrow> ind\<lparr>hasRange := True\<rparr>)"
| "extractIndicators_node chanName pass (ForStmt p i c po b) ind =
     (if c = None then ind\<lparr>infiniteLoop := True\<rparr> else ind)"
| "extractIndicators_node chanName pass (CallExpr f args) ind =
     time_check f (close_check chanName f args ind)"
| "extractIndicators_node chanName pass n ind = ind"

fun extractIndicators_visit ::
    "string \<Rightarrow> Pass \<Rightarrow> node option \<Rightarrow> indicators \<Rightarrow> bool \<times> indicators" where
  "extractIndicators_visit chanName pass None ind = (True, ind)"
| "extractIndicators_visit chanName pass (Some n) ind =
     (True, extractIndicators_node chanName pass n ind)"

definition extractIndicators :: "block \<Rightarrow> string \<Rightarrow> Pass \<Rightarrow> indicators" where
  "extractIndicators body chanName pass =
     Inspect (extractIndicators_visit chanName pass) (BlockNode body) indicators_zero"

text \<open>\<^verbatim>\<open>containsMultiCaseSelect\<close>; the state of the closure is \<^verbatim>\<open>found\<close>.\<close>

fun containsMultiCaseSelect_visit :: "node option \<Rightarrow> bool \<Rightarrow> bool \<times> bool" where
  "containsMultiCaseSelect_visit n True = (False, True)"
| "containsMultiCaseSelect_visit (Some (SelectStmt p (Some body))) False =
     (if length (List body) \<ge> 2 then (False, True) else (True, False))"
| "containsMultiCaseSelect_visit n False = (True, False)"

definition containsMultiCaseSelect :: "block \<Rightarrow> bool" where
  "containsMultiCaseSelect body =
     Inspect containsMultiCaseSelect_visit (BlockNode body) False"

text \<open>\<^verbatim>\<open>containsIO\<close>.\<close>

definition ioPkgs :: "string \<Rightarrow> bool" where
  "ioPkgs path = (path \<in> {''net'', ''net/http'', ''os'', ''io'', ''database/sql''})"

fun isIOPackage :: "object option \<Rightarrow> bool" where
  "isIOPackage (Some (PkgName path)) = ioPkgs path"
| "isIOPackage obj = False"

definition containsIO_call :: "Pass \<Rightarrow> node \<Rightarrow> bool" where
  "containsIO_call pass f =
     (case asSelectorExpr f of
        None \<Rightarrow> False
      | Some (x, sel) \<Rightarrow>
         (case asIdent x of
            None \<Rightarrow> False
          | Some ident \<Rightarrow> isIOPackage (ObjectOf pass ident)))"

fun containsIO_visit :: "Pass \<Rightarrow> node option \<Rightarrow> bool \<Rightarrow> bool \<times> bool" where
  "containsIO_visit pass n True = (False, True)"
| "containsIO_visit pass (Some (CallExpr f args)) False =
     (if containsIO_call pass f then (False, True) else (True, False))"
| "containsIO_visit pass n False = (True, False)"

definition containsIO :: "block \<Rightarrow> Pass \<Rightarrow> bool" where
  "containsIO body pass = Inspect (containsIO_visit pass) (BlockNode body) False"

text \<open>
  \<^verbatim>\<open>rangesOverChannel\<close>. The test made on a range statement whose \<^verbatim>\<open>X\<close> is an identifier:
  the expression has type information, its underlying type is a channel type, and the
  identifier has an object. Nothing is asked of the object.
\<close>

definition rangesOverChannel_range :: "Pass \<Rightarrow> node \<Rightarrow> bool" where
  "rangesOverChannel_range pass x =
     (case asIdent x of
        None \<Rightarrow> False
      | Some ident \<Rightarrow>
         (case Types pass x of
            Some t \<Rightarrow>
              (if isChan (Underlying t) then
                 (case ObjectOf pass ident of Some obj \<Rightarrow> True | None \<Rightarrow> False)
               else False)
          | None \<Rightarrow> False))"

fun rangesOverChannel_visit :: "Pass \<Rightarrow> node option \<Rightarrow> bool \<Rightarrow> bool \<times> bool" where
  "rangesOverChannel_visit pass n True = (False, True)"
| "rangesOverChannel_visit pass (Some (RangeStmt p k v x b)) False =
     (if rangesOverChannel_range pass x then (False, True) else (True, False))"
| "rangesOverChannel_visit pass n False = (True, False)"

definition rangesOverChannel :: "block \<Rightarrow> Pass \<Rightarrow> bool" where
  "rangesOverChannel body pass =
     Inspect (rangesOverChannel_visit pass) (BlockNode body) False"

text \<open>
  \<^verbatim>\<open>classify\<close>. The confidences are the decimal constants of the source, as reals: the
  comparisons made with them (with each other and with 0.5) come out as on \<^verbatim>\<open>float64\<close>.
\<close>

definition classify :: "channelProducer \<Rightarrow> Pass \<Rightarrow> Pattern \<times> real" where
  "classify cp pass =
     (case snd (funcLit cp) of
        None \<Rightarrow> (Unknown, 0)
      | Some body \<Rightarrow>
         if containsMultiCaseSelect body then (Unknown, 0)
         else if containsIO body pass then (Unknown, 0)
         else if rangesOverChannel body pass then (Unknown, 0)
         else
           let ind = extractIndicators body (Name (chanIdent cp)) pass in
           if hasRange ind \<and> hasClose ind then (BoundedIterator, 0.92)
           else if hasModulo ind \<and> hasIndexExpr ind \<and> infiniteLoop ind then (RoundRobin, 0.90)
           else if hasIncrement ind \<and> infiniteLoop ind \<and> \<not> hasTimeSleep ind
             then (IDGenerator, 0.95)
           else if hasTimeTicker ind then (RateLimiter, 0.78)
           else if hasTimeSleep ind \<and> infiniteLoop ind then (ChanTicker, 0.80)
           else if length (sends cp) = 1 \<and> \<not> infiniteLoop ind \<and> \<not> hasRange ind
             then (Singleton, 0.70)
           else (Unknown, 0))"

section \<open>The run (analyzer.go)\<close>

text \<open>
  A diagnostic: the position given to \<^verbatim>\<open>pass.Reportf\<close> and the arguments of its format
  (the pattern, the replacement, the speedup, the confidence times 100).
\<close>

record Diagnostic =
  diag_pos :: pos
  diag_pattern :: Pattern
  diag_replacement :: string
  diag_speedup :: string
  diag_percent :: real

text \<open>The body of the inner loop of \<^verbatim>\<open>run\<close>: the diagnostics reported for one producer.\<close>

definition run_producer :: "Pass \<Rightarrow> channelProducer \<Rightarrow> Diagnostic list" where
  "run_producer pass cp =
     (case classify cp pass of
        (pat, conf) \<Rightarrow>
          if pat = Unknown \<or> conf < 0.5 then []
          else
            let spec = Registry_lookup pat in
            [\<lparr>diag_pos = makePos cp, diag_pattern = pat,
              diag_replacement = Replacement spec, diag_speedup = Speedup spec,
              diag_percent = conf * 100\<rparr>])"

definition run_file :: "Pass \<Rightarrow> ast_File \<Rightarrow> Diagnostic list" where
  "run_file pass file = concat (map (run_producer pass) (detect pass file))"

definition run :: "Pass \<Rightarrow> Diagnostic list" where
  "run pass = concat (map (run_file pass) (Files pass))"


section \<open>Notions the statements use\<close>

text \<open>The diagnostics the run reports for one declaration of a file.\<close>

fun diagnostics_of :: "Pass \<Rightarrow> Decl \<Rightarrow> Diagnostic list" where
  "diagnostics_of pass (FuncDeclD fn) =
     (case detect_func pass fn of Some cp \<Rightarrow> run_producer pass cp | None \<Rightarrow> [])"
| "diagnostics_of pass d = []"

text \<open>A select statement with two or more clauses.\<close>

fun isMultiSelect :: "node \<Rightarrow> bool" where
  "isMultiSelect (SelectStmt p (Some body)) = (length (List body) \<ge> 2)"
| "isMultiSelect n = False"

text \<open>A clause of a select statement with a communication, and the default clause.\<close>

fun isCommCase :: "node \<Rightarrow> bool" where
  "isCommCase (CommClause p (Some comm) b) = True"
| "isCommCase n = False"

fun isDefaultClause :: "node \<Rightarrow> bool" where
  "isDefaultClause (CommClause p None b) = True"
| "isDefaultClause n = False"

text \<open>
  A range statement over a bare identifier that has type information with a channel
  as underlying type and that resolves to an object.
\<close>

fun isChanIdentRange :: "Pass \<Rightarrow> node \<Rightarrow> bool" where
  "isChanIdentRange pass (RangeStmt p k v (Ident i) b) =
     (case Types pass (Ident i) of
        Some t \<Rightarrow> isChan (Underlying t) \<and> ObjectOf pass i \<noteq> None
      | None \<Rightarrow> False)"
| "isChanIdentRange pass n = False"

text \<open>The iteration target of a range statement.\<close>

fun rangeTarget :: "node \<Rightarrow> node option" where
  "rangeTarget (RangeStmt p k v x b) = Some x"
| "rangeTarget n = None"

fun isRangeStmt :: "node \<Rightarrow> bool" where
  "isRangeStmt (RangeStmt p k v x b) = True"
| "isRangeStmt n = False"

text \<open>
  A range statement that counts for \<open>hasRange\<close>: its iteration target has no type
  information, or a type whose underlying type is not a channel type.
\<close>

fun rangeCounts :: "Pass \<Rightarrow> node \<Rightarrow> bool" where
  "rangeCounts pass (RangeStmt p k v x b) =
     (case Types pass x of Some t \<Rightarrow> \<not> isChan (Underlying t) | None \<Rightarrow> True)"
| "rangeCounts pass n = False"

text \<open>
  What \<^verbatim>\<open>extractMakeChan\<close> finds in a statement, and the valid channel-creating
  assignments among the top-level statements, in statement order.
\<close>

fun makeChan_of :: "node \<Rightarrow> (ident \<times> pos \<times> 64 word) option" where
  "makeChan_of (AssignStmt lhs tok rhs) = extractMakeChan lhs tok rhs"
| "makeChan_of s = None"

definition valid_makes :: "node list \<Rightarrow> (ident \<times> pos \<times> 64 word) list" where
  "valid_makes stmts = List.map_filter makeChan_of stmts"

text \<open>The channel found so far by the loop over the statements, with its position and buffer size.\<close>

definition scan_chan :: "scan \<Rightarrow> (ident \<times> pos \<times> 64 word) option" where
  "scan_chan st = map_option (\<lambda>c. (c, scan_makePos st, scan_bufSize st)) (chanVar st)"

text \<open>The go statements among the top-level statements.\<close>

fun goStmt_of :: "node \<Rightarrow> (pos \<times> node \<times> node list) option" where
  "goStmt_of (GoStmt p f args) = Some (p, f, args)"
| "goStmt_of s = None"

definition spawns :: "node list \<Rightarrow> (pos \<times> node \<times> node list) list" where
  "spawns stmts = List.map_filter goStmt_of stmts"

text \<open>
  The identifier occurrences among some nodes, and the condition that the identifier
  occurrences of a function body stand at pairwise different positions, as they do in
  every parsed file.
\<close>

definition idents :: "node list \<Rightarrow> ident list" where
  "idents ns = List.map_filter asIdent ns"

definition distinct_ident_positions :: "block \<Rightarrow> bool" where
  "distinct_ident_positions fbody =
     distinct (map NamePos (idents (subnodes (BlockNode fbody))))"

text \<open>A send statement on a bare identifier of the given name.\<close>

fun isSendOn :: "string \<Rightarrow> node \<Rightarrow> bool" where
  "isSendOn chanName (SendStmt (Ident i) v) = (Name i = chanName)"
| "isSendOn chanName n = False"

section \<open>Example programs\<close>

text \<open>
  Type information by name, as the examples need it: an identifier resolves to the
  object its name is bound to, and has that object's type.
\<close>

definition pass_of :: "ast_File list \<Rightarrow> (string \<rightharpoonup> object) \<Rightarrow> Pass" where
  "pass_of files scope =
     \<lparr>Files = files,
      Types = (\<lambda>n. case asIdent n of
                 Some i \<Rightarrow> map_option Type_object (scope (Name i))
               | None \<Rightarrow> None),
      ObjectOf = (\<lambda>i. scope (Name i))\<rparr>"

text \<open>
  The generator of the test data:
  \<^verbatim>\<open>func NewIDGenerator() <-chan int64 {
      ch := make(chan int64)
      go func() { var id int64; for { id++; ch <- id } }()
      return ch
  }\<close>
\<close>

definition idgen_task :: block where
  "idgen_task =
     (74, [OtherNode 78 [OtherNode 78 [OtherNode 82
             [Ident (MkIdent 82 ''id''), Ident (MkIdent 85 ''int64'')]]],
           ForStmt 93 None None None
             (97, [IncDecStmt (Ident (MkIdent 101 ''id'')) token_INC,
                   SendStmt (Ident (MkIdent 108 ''ch'')) (Ident (MkIdent 114 ''id''))])])"

definition idgen_make :: node where
  "idgen_make =
     CallExpr (Ident (MkIdent 46 ''make'')) [ChanType 51 (Ident (MkIdent 56 ''int64''))]"

definition idgen_body :: block where
  "idgen_body =
     (36, [AssignStmt [Ident (MkIdent 40 ''ch'')] token_DEFINE [idgen_make],
           GoStmt 64 (FuncLit (FuncType 67 [OtherNode 71 []]) (Some idgen_task)) [],
           ReturnStmt 130 [Ident (MkIdent 137 ''ch'')]])"

definition idgen_fn :: FuncDecl where
  "idgen_fn =
     \<lparr>FuncName = MkIdent 6 ''NewIDGenerator'', Params = [],
      Results = Some [\<lparr>Names = [], Type = ChanType 23 (Ident (MkIdent 30 ''int64''))\<rparr>],
      Body = Some idgen_body\<rparr>"

definition idgen_scope :: "string \<rightharpoonup> object" where
  "idgen_scope =
     [''ch'' \<mapsto> Var LocalVar (TChan (TBasic ''int64'')),
      ''id'' \<mapsto> Var LocalVar (TBasic ''int64'')]"

definition idgen_pass :: Pass where
  "idgen_pass = pass_of [\<lparr>Decls = [FuncDeclD idgen_fn]\<rparr>] idgen_scope"

definition idgen_cp :: channelProducer where
  "idgen_cp =
     \<lparr>sends = [SendStmt (Ident (MkIdent 108 ''ch'')) (Ident (MkIdent 114 ''id''))],
      funcLit = (FuncType 67 [OtherNode 71 []], Some idgen_task),
      chanIdent = MkIdent 40 ''ch'',
      chanType = Some (TChan (TBasic ''int64'')),
      makePos = 40, bufSize = 0\<rparr>"

text \<open>
  The pipeline stage of the test data:
  \<^verbatim>\<open>func Square(in <-chan int) <-chan int {
      out := make(chan int)
      go func() { defer close(out); for v := range in { out <- v * v } }()
      return out
  }\<close>
\<close>

definition square_loop :: node where
  "square_loop =
     RangeStmt 84 (Some (Ident (MkIdent 88 ''v''))) None (Ident (MkIdent 99 ''in''))
       (102, [SendStmt (Ident (MkIdent 107 ''out''))
                (BinaryExpr (Ident (MkIdent 114 ''v'')) token_MUL
                   (Ident (MkIdent 118 ''v'')))])"

definition square_task :: block where
  "square_task =
     (62, [DeferStmt 66 (Ident (MkIdent 72 ''close'')) [Ident (MkIdent 78 ''out'')],
           square_loop])"

definition square_fn :: FuncDecl where
  "square_fn =
     \<lparr>FuncName = MkIdent 6 ''Square'',
      Params = [\<lparr>Names = [MkIdent 13 ''in''],
                 Type = ChanType 16 (Ident (MkIdent 23 ''int''))\<rparr>],
      Results = Some [\<lparr>Names = [], Type = ChanType 28 (Ident (MkIdent 35 ''int''))\<rparr>],
      Body = Some (39,
        [AssignStmt [Ident (MkIdent 42 ''out'')] token_DEFINE
           [CallExpr (Ident (MkIdent 49 ''make''))
              [ChanType 54 (Ident (MkIdent 59 ''int''))]],
         GoStmt 60 (FuncLit (FuncType 61 [OtherNode 61 []]) (Some square_task)) [],
         ReturnStmt 130 [Ident (MkIdent 137 ''out'')]])\<rparr>"

definition square_scope :: "string \<rightharpoonup> object" where
  "square_scope =
     [''in'' \<mapsto> Var ParamVar (TChan (TBasic ''int'')),
      ''out'' \<mapsto> Var LocalVar (TChan (TBasic ''int'')),
      ''v'' \<mapsto> Var LocalVar (TBasic ''int'')]"

definition square_pass :: Pass where
  "square_pass = pass_of [\<lparr>Decls = [FuncDeclD square_fn]\<rparr>] square_scope"

definition square_cp :: channelProducer where
  "square_cp =
     \<lparr>sends = [SendStmt (Ident (MkIdent 107 ''out''))
                (BinaryExpr (Ident (MkIdent 114 ''v'')) token_MUL
                   (Ident (MkIdent 118 ''v'')))],
      funcLit = (FuncType 61 [OtherNode 61 []], Some square_task),
      chanIdent = MkIdent 42 ''out'',
      chanType = Some (TChan (TBasic ''int'')),
      makePos = 42, bufSize = 0\<rparr>"

text \<open>
  The worker pool of the test data:
  \<^verbatim>\<open>func WorkerPool(ctx context.Context, jobs <-chan int) <-chan int {
      out := make(chan int)
      go func() {
          defer close(out)
          for j := range jobs {
              select {
              case out <- j * 2:
              case <-ctx.Done():
                  return
              }
          }
      }()
      return out
  }\<close>
\<close>

definition pool_select :: node where
  "pool_select =
     SelectStmt 130 (Some (137,
       [CommClause 140 (Some (SendStmt (Ident (MkIdent 145 ''out''))
            (BinaryExpr (Ident (MkIdent 152 ''j'')) token_MUL (BasicLit 156 token_INT ''2''))))
          [],
        CommClause 160 (Some (ExprStmt (UnaryExpr 165 token_ARROW
            (CallExpr (SelectorExpr (Ident (MkIdent 167 ''ctx'')) (MkIdent 171 ''Done'')) []))))
          [ReturnStmt 180 []]]))"

definition pool_task :: block where
  "pool_task =
     (92, [DeferStmt 96 (Ident (MkIdent 102 ''close'')) [Ident (MkIdent 108 ''out'')],
           RangeStmt 114 (Some (Ident (MkIdent 118 ''j''))) None (Ident (MkIdent 129 ''jobs''))
             (128, [pool_select])])"

definition pool_fn :: FuncDecl where
  "pool_fn =
     \<lparr>FuncName = MkIdent 6 ''WorkerPool'',
      Params = [\<lparr>Names = [MkIdent 17 ''ctx''],
                 Type = SelectorExpr (Ident (MkIdent 21 ''context'')) (MkIdent 29 ''Context'')\<rparr>,
                \<lparr>Names = [MkIdent 38 ''jobs''],
                 Type = ChanType 43 (Ident (MkIdent 50 ''int''))\<rparr>],
      Results = Some [\<lparr>Names = [], Type = ChanType 55 (Ident (MkIdent 62 ''int''))\<rparr>],
      Body = Some (66,
        [AssignStmt [Ident (MkIdent 69 ''out'')] token_DEFINE
           [CallExpr (Ident (MkIdent 76 ''make''))
              [ChanType 81 (Ident (MkIdent 86 ''int''))]],
         GoStmt 88 (FuncLit (FuncType 91 [OtherNode 95 []]) (Some pool_task)) [],
         ReturnStmt 200 [Ident (MkIdent 207 ''out'')]])\<rparr>"

definition pool_scope :: "string \<rightharpoonup> object" where
  "pool_scope =
     [''jobs'' \<mapsto> Var ParamVar (TChan (TBasic ''int'')),
      ''ctx'' \<mapsto> Var ParamVar (TNamed ''context.Context'' (TBasic ''interface'')),
      ''out'' \<mapsto> Var LocalVar (TChan (TBasic ''int'')),
      ''j'' \<mapsto> Var LocalVar (TBasic ''int'')]"

definition pool_pass :: Pass where
  "pool_pass = pass_of [\<lparr>Decls = [FuncDeclD pool_fn]\<rparr>] pool_scope"

text \<open>
  The generator with a select statement in the function body, after the go statement:
  \<^verbatim>\<open>func Gen(stop, done <-chan bool) <-chan int64 {
      ch := make(chan int64)
      go func() { var id int64; for { id++; ch <- id } }()
      select {
      case <-stop:
      case <-done:
      }
      return ch
  }\<close>
\<close>

definition gen_select :: node where
  "gen_select =
     SelectStmt 130 (Some (137,
       [CommClause 140 (Some (ExprStmt (UnaryExpr 145 token_ARROW
            (Ident (MkIdent 147 ''stop''))))) [],
        CommClause 153 (Some (ExprStmt (UnaryExpr 158 token_ARROW
            (Ident (MkIdent 160 ''done''))))) []]))"

definition gen_body :: block where
  "gen_body =
     (36, [AssignStmt [Ident (MkIdent 40 ''ch'')] token_DEFINE [idgen_make],
           GoStmt 64 (FuncLit (FuncType 67 [OtherNode 71 []]) (Some idgen_task)) [],
           gen_select,
           ReturnStmt 170 [Ident (MkIdent 177 ''ch'')]])"

definition gen_fn :: FuncDecl where
  "gen_fn =
     \<lparr>FuncName = MkIdent 6 ''Gen'',
      Params = [\<lparr>Names = [MkIdent 10 ''stop'', MkIdent 16 ''done''],
                 Type = ChanType 21 (Ident (MkIdent 28 ''bool''))\<rparr>],
      Results = Some [\<lparr>Names = [], Type = ChanType 23 (Ident (MkIdent 30 ''int64''))\<rparr>],
      Body = Some gen_body\<rparr>"

definition gen_pass :: Pass where
  "gen_pass =
     pass_of [\<lparr>Decls = [FuncDeclD gen_fn]\<rparr>]
       (idgen_scope(''stop'' \<mapsto> Var ParamVar (TChan (TBasic ''bool'')),
                    ''done'' \<mapsto> Var ParamVar (TChan (TBasic ''bool''))))"

text \<open>
  A non-blocking producer:
  \<^verbatim>\<open>func TryGen() <-chan int {
      ch := make(chan int, 1)
      go func() { for { select { case ch <- 1: default: } } }()
      return ch
  }\<close>
\<close>

definition trygen_select :: node where
  "trygen_select =
     SelectStmt 70 (Some (77,
       [CommClause 80 (Some (SendStmt (Ident (MkIdent 85 ''ch'')) (BasicLit 91 token_INT ''1'')))
          [],
        CommClause 95 None []]))"

definition trygen_task :: block where
  "trygen_task = (60, [ForStmt 63 None None None (67, [trygen_select])])"

definition trygen_fn :: FuncDecl where
  "trygen_fn =
     \<lparr>FuncName = MkIdent 6 ''TryGen'', Params = [],
      Results = Some [\<lparr>Names = [], Type = ChanType 15 (Ident (MkIdent 22 ''int''))\<rparr>],
      Body = Some (26,
        [AssignStmt [Ident (MkIdent 29 ''ch'')] token_DEFINE
           [CallExpr (Ident (MkIdent 35 ''make''))
              [ChanType 40 (Ident (MkIdent 45 ''int'')), BasicLit 50 token_INT ''1'']],
         GoStmt 53 (FuncLit (FuncType 56 [OtherNode 60 []]) (Some trygen_task)) [],
         ReturnStmt 110 [Ident (MkIdent 117 ''ch'')]])\<rparr>"

definition trygen_pass :: Pass where
  "trygen_pass =
     pass_of [\<lparr>Decls = [FuncDeclD trygen_fn]\<rparr>]
       [''ch'' \<mapsto> Var LocalVar (TChan (TBasic ''int''))]"

text \<open>
  A producer that drains a channel it made itself:
  \<^verbatim>\<open>func Relay() <-chan int {
      out := make(chan int)
      go func() { src := newSource(); for v := range src { out <- v } }()
      return out
  }\<close>
\<close>

definition relay_loop :: node where
  "relay_loop =
     RangeStmt 85 (Some (Ident (MkIdent 89 ''v''))) None (Ident (MkIdent 100 ''src''))
       (104, [SendStmt (Ident (MkIdent 108 ''out'')) (Ident (MkIdent 115 ''v''))])"

definition relay_task :: block where
  "relay_task =
     (60, [AssignStmt [Ident (MkIdent 64 ''src'')] token_DEFINE
             [CallExpr (Ident (MkIdent 71 ''newSource'')) []],
           relay_loop])"

definition relay_fn :: FuncDecl where
  "relay_fn =
     \<lparr>FuncName = MkIdent 6 ''Relay'', Params = [],
      Results = Some [\<lparr>Names = [], Type = ChanType 14 (Ident (MkIdent 21 ''int''))\<rparr>],
      Body = Some (25,
        [AssignStmt [Ident (MkIdent 28 ''out'')] token_DEFINE
           [CallExpr (Ident (MkIdent 35 ''make''))
              [ChanType 40 (Ident (MkIdent 45 ''int''))]],
         GoStmt 50 (FuncLit (FuncType 53 [OtherNode 57 []]) (Some relay_task)) [],
         ReturnStmt 125 [Ident (MkIdent 132 ''out'')]])\<rparr>"

definition relay_pass :: Pass where
  "relay_pass =
     pass_of [\<lparr>Decls = [FuncDeclD relay_fn]\<rparr>]
       [''src'' \<mapsto> Var LocalVar (TChan (TBasic ''int'')),
        ''out'' \<mapsto> Var LocalVar (TChan (TBasic ''int'')),
        ''v'' \<mapsto> Var LocalVar (TBasic ''int'')]"

text \<open>
  The rate limiter of the test data; the type of \<^verbatim>\<open>ticker.C\<close> is recorded:
  \<^verbatim>\<open>func RateLimited(rps int) <-chan struct{} {
      ch := make(chan struct{}, rps)
      go func() {
          ticker := time.NewTicker(time.Second / time.Duration(rps))
          defer ticker.Stop()
          for range ticker.C { ch <- struct{}{} }
      }()
      return ch
  }\<close>
\<close>

definition ticker_C :: node where
  "ticker_C = SelectorExpr (Ident (MkIdent 170 ''ticker'')) (MkIdent 177 ''C'')"

definition limiter_loop :: node where
  "limiter_loop =
     RangeStmt 160 None None ticker_C
       (179, [SendStmt (Ident (MkIdent 183 ''ch'')) (OtherNode 189 [OtherNode 189 []])])"

definition limiter_task :: block where
  "limiter_task =
     (75, [AssignStmt [Ident (MkIdent 79 ''ticker'')] token_DEFINE
             [CallExpr (SelectorExpr (Ident (MkIdent 89 ''time'')) (MkIdent 94 ''NewTicker''))
                [BinaryExpr
                   (SelectorExpr (Ident (MkIdent 104 ''time'')) (MkIdent 109 ''Second''))
                   token_QUO
                   (CallExpr
                      (SelectorExpr (Ident (MkIdent 118 ''time'')) (MkIdent 123 ''Duration''))
                      [Ident (MkIdent 132 ''rps'')])]],
           DeferStmt 140 (SelectorExpr (Ident (MkIdent 146 ''ticker'')) (MkIdent 153 ''Stop'')) [],
           limiter_loop])"

definition limiter_fn :: FuncDecl where
  "limiter_fn =
     \<lparr>FuncName = MkIdent 6 ''RateLimited'',
      Params = [\<lparr>Names = [MkIdent 18 ''rps''], Type = Ident (MkIdent 22 ''int'')\<rparr>],
      Results = Some [\<lparr>Names = [], Type = ChanType 27 (OtherNode 34 [])\<rparr>],
      Body = Some (43,
        [AssignStmt [Ident (MkIdent 46 ''ch'')] token_DEFINE
           [CallExpr (Ident (MkIdent 52 ''make''))
              [ChanType 57 (OtherNode 62 []), Ident (MkIdent 65 ''rps'')]],
         GoStmt 66 (FuncLit (FuncType 69 [OtherNode 73 []]) (Some limiter_task)) [],
         ReturnStmt 200 [Ident (MkIdent 207 ''ch'')]])\<rparr>"

definition limiter_pass :: Pass where
  "limiter_pass =
     (let pass = pass_of [\<lparr>Decls = [FuncDeclD limiter_fn]\<rparr>]
        [''ch'' \<mapsto> Var LocalVar (TChan (TBasic ''struct{}'')),
         ''rps'' \<mapsto> Var ParamVar (TBasic ''int''),
         ''ticker'' \<mapsto> Var LocalVar (TBasic ''*time.Ticker''),
         ''time'' \<mapsto> PkgName ''time'']
      in pass\<lparr>Types := (Types pass)(ticker_C \<mapsto> TChan (TNamed ''time.Time'' (TBasic ''struct'')))\<rparr>)"

text \<open>
  The iterator of the test data, analysed without any type information:
  \<^verbatim>\<open>func Iterate(items []int) <-chan int {
      ch := make(chan int)
      go func() { defer close(ch); for _, v := range items { ch <- v } }()
      return ch
  }\<close>
\<close>

definition iterate_loop :: node where
  "iterate_loop =
     RangeStmt 90 (Some (Ident (MkIdent 94 ''_''))) (Some (Ident (MkIdent 97 ''v'')))
       (Ident (MkIdent 108 ''items''))
       (114, [SendStmt (Ident (MkIdent 118 ''ch'')) (Ident (MkIdent 124 ''v''))])"

definition iterate_task :: block where
  "iterate_task =
     (68, [DeferStmt 72 (Ident (MkIdent 78 ''close'')) [Ident (MkIdent 84 ''ch'')],
           iterate_loop])"

definition iterate_fn :: FuncDecl where
  "iterate_fn =
     \<lparr>FuncName = MkIdent 6 ''Iterate'',
      Params = [\<lparr>Names = [MkIdent 14 ''items''], Type = OtherNode 20 [Ident (MkIdent 22 ''int'')]\<rparr>],
      Results = Some [\<lparr>Names = [], Type = ChanType 27 (Ident (MkIdent 34 ''int''))\<rparr>],
      Body = Some (38,
        [AssignStmt [Ident (MkIdent 41 ''ch'')] token_DEFINE
           [CallExpr (Ident (MkIdent 47 ''make''))
              [ChanType 52 (Ident (MkIdent 57 ''int''))]],
         GoStmt 59 (FuncLit (FuncType 62 [OtherNode 66 []]) (Some iterate_task)) [],
         ReturnStmt 135 [Ident (MkIdent 142 ''ch'')]])\<rparr>"

definition iterate_pass :: Pass where
  "iterate_pass = pass_of [\<lparr>Decls = [FuncDeclD iterate_fn]\<rparr>] Map.empty"

text \<open>
  Two channels made at the top level, both sent on:
  \<^verbatim>\<open>func Pair() (<-chan int, <-chan int) {
      a := make(chan int, 1)
      b := make(chan int, 2)
      go func() { a <- 1; b <- 2 }()
      return a, b
  }\<close>
\<close>

definition pair_body :: block where
  "pair_body =
     (40, [AssignStmt [Ident (MkIdent 44 ''a'')] token_DEFINE
             [CallExpr (Ident (MkIdent 49 ''make''))
                [ChanType 54 (Ident (MkIdent 59 ''int'')), BasicLit 64 token_INT ''1'']],
           AssignStmt [Ident (MkIdent 69 ''b'')] token_DEFINE
             [CallExpr (Ident (MkIdent 74 ''make''))
                [ChanType 79 (Ident (MkIdent 84 ''int'')), BasicLit 89 token_INT ''2'']],
           GoStmt 93 (FuncLit (FuncType 96 [OtherNode 100 []])
             (Some (103, [SendStmt (Ident (MkIdent 105 ''a'')) (BasicLit 110 token_INT ''1''),
                          SendStmt (Ident (MkIdent 113 ''b'')) (BasicLit 118 token_INT ''2'')])))
             [],
           ReturnStmt 126 [Ident (MkIdent 133 ''a''), Ident (MkIdent 136 ''b'')]])"

definition pair_fn :: FuncDecl where
  "pair_fn =
     \<lparr>FuncName = MkIdent 6 ''Pair'', Params = [],
      Results = Some [\<lparr>Names = [], Type = ChanType 14 (Ident (MkIdent 21 ''int''))\<rparr>,
                      \<lparr>Names = [], Type = ChanType 26 (Ident (MkIdent 33 ''int''))\<rparr>],
      Body = Some pair_body\<rparr>"

definition pair_pass :: Pass where
  "pair_pass =
     pass_of [\<lparr>Decls = [FuncDeclD pair_fn]\<rparr>]
       [''a'' \<mapsto> Var LocalVar (TChan (TBasic ''int'')),
        ''b'' \<mapsto> Var LocalVar (TChan (TBasic ''int''))]"






text \<open>
  The generator with a buffer size written in hexadecimal, and with a digit separator:
  \<^verbatim>\<open>ch := make(chan int64, 0x10)\<close> and \<^verbatim>\<open>ch := make(chan int64, 1_0)\<close>.
\<close>

definition sized_fn :: "string \<Rightarrow> FuncDecl" where
  "sized_fn lit =
     \<lparr>FuncName = MkIdent 6 ''NewIDGenerator'', Params = [],
      Results = Some [\<lparr>Names = [], Type = ChanType 23 (Ident (MkIdent 30 ''int64''))\<rparr>],
      Body = Some (36,
        [AssignStmt [Ident (MkIdent 40 ''ch'')] token_DEFINE
           [CallExpr (Ident (MkIdent 46 ''make''))
              [ChanType 51 (Ident (MkIdent 56 ''int64'')), BasicLit 63 token_INT lit]],
         GoStmt 64 (FuncLit (FuncType 67 [OtherNode 71 []]) (Some idgen_task)) [],
         ReturnStmt 130 [Ident (MkIdent 137 ''ch'')]])\<rparr>"

definition sized_pass :: "string \<Rightarrow> Pass" where
  "sized_pass lit = pass_of [\<lparr>Decls = [FuncDeclD (sized_fn lit)]\<rparr>] idgen_scope"

section \<open>The decision table of the specification\<close>

text \<open>
  The arms of the cascade as the specification lists them, each a condition on the
  indicators (and on the number of send sites) with its result, in order; the first arm
  whose condition holds gives the result, and the default applies when none does.
\<close>

definition decision_arms :: "indicators \<Rightarrow> nat \<Rightarrow> (bool \<times> Pattern \<times> real) list" where
  "decision_arms ind n =
     [(hasRange ind \<and> hasClose ind, BoundedIterator, 0.92),
      (hasModulo ind \<and> hasIndexExpr ind \<and> infiniteLoop ind, RoundRobin, 0.90),
      (hasIncrement ind \<and> infiniteLoop ind \<and> \<not> hasTimeSleep ind, IDGenerator, 0.95),
      (hasTimeTicker ind, RateLimiter, 0.78),
      (hasTimeSleep ind \<and> infiniteLoop ind, ChanTicker, 0.80),
      (n = 1 \<and> \<not> infiniteLoop ind \<and> \<not> hasRange ind, Singleton, 0.70)]"

fun first_match :: "(bool \<times> 'a) list \<Rightarrow> 'a \<Rightarrow> 'a" where
  "first_match [] d = d"
| "first_match ((c, r) # arms) d = (if c then r else first_match arms d)"

section \<open>Facts about the traversals\<close>

lemma containsMultiCaseSelect_visit_False:
  "containsMultiCaseSelect_visit (Some n) False = (\<not> isMultiSelect n, isMultiSelect n)"
proof (cases n)
  case (SelectStmt p b)
  then show ?thesis by (cases b) auto
qed auto

lemma containsMultiCaseSelect_iff:
  "containsMultiCaseSelect body = (\<exists>m\<in>set (subnodes (BlockNode body)). isMultiSelect m)"
  unfolding containsMultiCaseSelect_def
  by (subst Inspect_found [where P = isMultiSelect])
     (simp_all add: containsMultiCaseSelect_visit_False)

lemma rangesOverChannel_range_eq:
  "rangesOverChannel_range pass x = isChanIdentRange pass (RangeStmt p k v x b)"
  by (cases x) (auto simp: rangesOverChannel_range_def split: option.splits)

lemma rangesOverChannel_visit_False:
  "rangesOverChannel_visit pass (Some n) False =
     (\<not> isChanIdentRange pass n, isChanIdentRange pass n)"
proof (cases n)
  case (RangeStmt p k v x b)
  then show ?thesis
    using rangesOverChannel_range_eq [of pass x p k v b] by simp
qed auto

lemma rangesOverChannel_iff:
  "rangesOverChannel body pass =
     (\<exists>m\<in>set (subnodes (BlockNode body)). isChanIdentRange pass m)"
  unfolding rangesOverChannel_def
  by (subst Inspect_found [where P = "isChanIdentRange pass"])
     (simp_all add: rangesOverChannel_visit_False)

lemma extractIndicators_fold:
  "extractIndicators body chanName pass =
     fold (extractIndicators_node chanName pass) (subnodes (BlockNode body)) indicators_zero"
  unfolding extractIndicators_def
  by (rule Inspect_all) simp_all

lemma collectSends_visit_Some:
  "collectSends_visit chanName (Some n) snds =
     (True, if isSendOn chanName n then snds @ [n] else snds)"
proof (cases n)
  case (SendStmt c v)
  then show ?thesis by (cases c) auto
qed auto

lemma fold_append_filter:
  "fold (\<lambda>n acc. if P n then acc @ [n] else acc) xs acc = acc @ filter P xs"
  by (induction xs arbitrary: acc) auto

lemma collectSends_filter:
  "collectSends fl chanName =
     filter (isSendOn chanName) (subnodes (FuncLit (fst fl) (snd fl)))"
proof -
  have "Inspect (collectSends_visit chanName) n acc =
      fold (\<lambda>n acc. if isSendOn chanName n then acc @ [n] else acc) (subnodes n) acc"
    for n acc
    by (rule Inspect_all) (simp_all add: collectSends_visit_Some)
  then show ?thesis
    by (simp add: collectSends_def fold_append_filter)
qed

section \<open>Facts about the run\<close>

lemma fold_detect_decl:
  "fold (detect_decl pass) ds acc =
     acc @ concat (map (\<lambda>d. case d of FuncDeclD fn \<Rightarrow> opt (detect_func pass fn) | GenDecl p \<Rightarrow> []) ds)"
proof (induction ds arbitrary: acc)
  case Nil
  then show ?case by simp
next
  case (Cons d ds)
  then show ?case by (cases d) (auto split: option.splits)
qed

lemma run_file_by_decl:
  "run_file pass file = concat (map (diagnostics_of pass) (Decls file))"
proof -
  have "concat (map (run_producer pass)
      (concat (map (\<lambda>d. case d of FuncDeclD fn \<Rightarrow> opt (detect_func pass fn) | GenDecl p \<Rightarrow> []) ds))) =
    concat (map (diagnostics_of pass) ds)" for ds
  proof (induction ds)
    case Nil
    then show ?case by simp
  next
    case (Cons d ds)
    then show ?case by (cases d) (auto split: option.splits)
  qed
  then show ?thesis
    by (simp add: run_file_def detect_def fold_detect_decl)
qed

lemma set_opt: "set (opt x) = set_option x"
  by (cases x) auto

lemma detect_member:
  "cp \<in> set (detect pass file) =
     (\<exists>fn. FuncDeclD fn \<in> set (Decls file) \<and> detect_func pass fn = Some cp)"
proof -
  let ?F = "\<lambda>d. case d of FuncDeclD fn \<Rightarrow> opt (detect_func pass fn) | GenDecl p \<Rightarrow> []"
  have one: "cp \<in> set (?F d) = (\<exists>fn. d = FuncDeclD fn \<and> detect_func pass fn = Some cp)" for d
    by (cases d) (auto simp: set_opt)
  have "cp \<in> set (detect pass file) = (\<exists>d\<in>set (Decls file). cp \<in> set (?F d))"
    by (simp add: detect_def fold_detect_decl)
  also have "\<dots> = (\<exists>fn. FuncDeclD fn \<in> set (Decls file) \<and> detect_func pass fn = Some cp)"
    unfolding one by blast
  finally show ?thesis .
qed

lemma run_member:
  "d \<in> set (run pass) =
     (\<exists>file\<in>set (Files pass). \<exists>cp\<in>set (detect pass file). d \<in> set (run_producer pass cp))"
  by (auto simp: run_def run_file_def)

lemma run_producer_member:
  assumes "d \<in> set (run_producer pass cp)"
  shows "fst (classify cp pass) \<noteq> Unknown \<and> \<not> snd (classify cp pass) < 0.5 \<and>
     diag_pos d = makePos cp \<and> diag_pattern d = fst (classify cp pass) \<and>
     diag_percent d = snd (classify cp pass) * 100"
proof (cases "classify cp pass")
  case (Pair pat conf)
  with assms show ?thesis
    by (auto simp: run_producer_def Let_def split: if_splits)
qed


section \<open>Facts about detection\<close>

lemma valid_makes_Cons:
  "valid_makes (x # xs) =
     (case makeChan_of x of None \<Rightarrow> valid_makes xs | Some v \<Rightarrow> v # valid_makes xs)"
  by (simp add: valid_makes_def split: option.splits)

lemma spawns_Cons:
  "spawns (x # xs) = (case goStmt_of x of None \<Rightarrow> spawns xs | Some g \<Rightarrow> g # spawns xs)"
  by (simp add: spawns_def split: option.splits)

lemma detect_stmt_chan:
  "scan_chan (detect_stmt x st) =
     (case makeChan_of x of None \<Rightarrow> scan_chan st | Some v \<Rightarrow> Some v)"
  by (cases x) (auto simp: scan_chan_def split: option.splits)

lemma detect_stmt_goStmts:
  "goStmts (detect_stmt x st) = goStmts st @ opt (goStmt_of x)"
  by (cases x) (auto split: option.splits)

lemma fold_detect_stmt_chan:
  "scan_chan (fold detect_stmt xs st) =
     (if valid_makes xs = [] then scan_chan st else Some (last (valid_makes xs)))"
proof (induction xs arbitrary: st)
  case Nil
  then show ?case by (simp add: valid_makes_def)
next
  case (Cons x xs)
  show ?case
    by (cases "makeChan_of x")
       (simp_all add: Cons.IH detect_stmt_chan valid_makes_Cons)
qed

lemma fold_detect_stmt_goStmts:
  "goStmts (fold detect_stmt xs st) = goStmts st @ spawns xs"
proof (induction xs arbitrary: st)
  case Nil
  then show ?case by (simp add: spawns_def)
next
  case (Cons x xs)
  show ?case
    by (cases "goStmt_of x") (simp_all add: Cons.IH detect_stmt_goStmts spawns_Cons)
qed

lemma scan_chan_init: "scan_chan scan_init = None"
  by (simp add: scan_chan_def scan_init_def)

lemma asFuncLit_Some: "asFuncLit x = Some fl \<longleftrightarrow> x = FuncLit (fst fl) (snd fl)"
  by (cases x) auto

text \<open>What a detected producer says about the function it comes from.\<close>

lemma detect_func_SomeD:
  assumes "detect_func pass fn = Some cp"
  obtains fbody results p args where
    "Body fn = Some fbody" "Results fn = Some results" "returnsChan results"
    "valid_makes (List fbody) \<noteq> []"
    "last (valid_makes (List fbody)) = (chanIdent cp, makePos cp, bufSize cp)"
    "spawns (List fbody) = [(p, FuncLit (fst (funcLit cp)) (snd (funcLit cp)), args)]"
    "sends cp = collectSends (funcLit cp) (Name (chanIdent cp))"
    "sends cp \<noteq> []"
proof -
  from assms obtain fbody where fb: "Body fn = Some fbody"
    by (auto simp: detect_func_def split: option.splits)
  from assms fb obtain results where rs: "Results fn = Some results" "returnsChan results"
    by (auto simp: detect_func_def split: option.splits if_splits)
  define st where "st = fold detect_stmt (List fbody) scan_init"
  from assms fb rs obtain cv where cv: "chanVar st = Some cv"
    by (auto simp: detect_func_def Let_def st_def split: option.splits if_splits)
  from assms fb rs cv have len: "length (goStmts st) = 1"
    by (auto simp: detect_func_def Let_def st_def split: option.splits if_splits)
  from assms fb rs cv len obtain fl where
    fl: "asFuncLit (fst (snd (goStmts st ! 0))) = Some fl"
    by (auto simp: detect_func_def Let_def st_def split: option.splits if_splits)
  from assms fb rs cv len fl have
    cp: "cp = \<lparr>sends = collectSends fl (Name cv), funcLit = fl, chanIdent = cv,
           chanType = (case ObjectOf pass cv of
                         Some obj \<Rightarrow> (if isChan (Type_object obj) then Some (Type_object obj)
                                      else None)
                       | None \<Rightarrow> None),
           makePos = scan_makePos st, bufSize = scan_bufSize st\<rparr>"
    and ne: "collectSends fl (Name cv) \<noteq> []"
    by (auto simp: detect_func_def Let_def st_def split: option.splits if_splits)
  have sc: "scan_chan st = Some (cv, scan_makePos st, scan_bufSize st)"
    using cv by (simp add: scan_chan_def)
  have vm: "valid_makes (List fbody) \<noteq> []"
    "last (valid_makes (List fbody)) = (cv, scan_makePos st, scan_bufSize st)"
    using sc fold_detect_stmt_chan [of "List fbody" scan_init]
    by (auto simp: st_def scan_chan_init split: if_splits)
  have gs: "goStmts st = spawns (List fbody)"
    by (simp add: st_def fold_detect_stmt_goStmts scan_init_def)
  from len gs obtain g where g: "spawns (List fbody) = [g]"
    by (cases "spawns (List fbody)") auto
  obtain p f args where gp: "g = (p, f, args)" by (cases g)
  from fl gs g gp have "f = FuncLit (fst fl) (snd fl)"
    by (simp add: asFuncLit_Some)
  with g gp have sp: "spawns (List fbody) = [(p, FuncLit (fst fl) (snd fl), args)]" by simp
  show thesis
    using that [OF fb rs vm(1) _ _ _ _] vm(2) sp ne by (simp add: cp)
qed


section \<open>The decision cascade\<close>

text \<open>
  Claim C1. For a producer whose task body passes the three safety gates, \<^verbatim>\<open>classify\<close>
  returns the result of the first arm of the specification's table whose condition
  holds on the extracted indicators: (BoundedIterator, 0.92), (RoundRobin, 0.90),
  (IDGenerator, 0.95), (RateLimiter, 0.78), (ChanTicker, 0.80), (Singleton, 0.70) in
  this order, and (Unknown, 0) when no arm matches.
\<close>

theorem classify_first_match:
  assumes "snd (funcLit cp) = Some body"
    and "\<not> containsMultiCaseSelect body"
    and "\<not> containsIO body pass"
    and "\<not> rangesOverChannel body pass"
  shows "classify cp pass =
     first_match
       (decision_arms (extractIndicators body (Name (chanIdent cp)) pass)
          (length (sends cp)))
       (Unknown, 0)"
  using assms by (simp add: classify_def decision_arms_def Let_def)

theorem classify_first_match_witness:
  "snd (funcLit idgen_cp) = Some idgen_task
   \<and> \<not> containsMultiCaseSelect idgen_task
   \<and> \<not> containsIO idgen_task idgen_pass
   \<and> \<not> rangesOverChannel idgen_task idgen_pass
   \<and> first_match
       (decision_arms (extractIndicators idgen_task (Name (chanIdent idgen_cp)) idgen_pass)
          (length (sends idgen_cp)))
       (Unknown, 0) = (IDGenerator, 0.95)
   \<and> classify idgen_cp idgen_pass = (IDGenerator, 0.95)"
proof -
  have b: "snd (funcLit idgen_cp) = Some idgen_task" by code_simp
  have g1: "\<not> containsMultiCaseSelect idgen_task" by code_simp
  have g2: "\<not> containsIO idgen_task idgen_pass" by code_simp
  have g3: "\<not> rangesOverChannel idgen_task idgen_pass" by code_simp
  have arm: "first_match
       (decision_arms (extractIndicators idgen_task (Name (chanIdent idgen_cp)) idgen_pass)
          (length (sends idgen_cp)))
       (Unknown, 0) = (IDGenerator, 0.95)" by code_simp
  from classify_first_match [OF b g1 g2 g3] arm
  have "classify idgen_cp idgen_pass = (IDGenerator, 0.95)" by simp
  with b g1 g2 g3 arm show ?thesis by simp
qed

section \<open>The reporting threshold\<close>

text \<open>
  Claim C2. Every diagnostic of a run comes from a detected producer that \<^verbatim>\<open>classify\<close>
  gives a pattern other than Unknown and a confidence of at least 0.5, and these are
  the pattern and the confidence the diagnostic shows; a producer classified Unknown
  or below 0.5 gets no diagnostic.
\<close>

theorem run_reports_above_threshold:
  "(\<forall>d\<in>set (run pass). \<exists>file\<in>set (Files pass). \<exists>cp\<in>set (detect pass file).
       d \<in> set (run_producer pass cp)
       \<and> fst (classify cp pass) \<noteq> Unknown \<and> 0.5 \<le> snd (classify cp pass)
       \<and> diag_pattern d = fst (classify cp pass)
       \<and> diag_percent d = snd (classify cp pass) * 100)
   \<and> (\<forall>cp. fst (classify cp pass) = Unknown \<or> snd (classify cp pass) < 0.5
         \<longrightarrow> run_producer pass cp = [])"
proof (intro conjI ballI allI impI)
  fix d
  assume "d \<in> set (run pass)"
  then obtain fl cp where f: "fl \<in> set (Files pass)" "cp \<in> set (detect pass fl)"
    and d: "d \<in> set (run_producer pass cp)"
    by (auto simp: run_member)
  from run_producer_member [OF d] f d
  show "\<exists>file\<in>set (Files pass). \<exists>cp\<in>set (detect pass file).
       d \<in> set (run_producer pass cp)
       \<and> fst (classify cp pass) \<noteq> Unknown \<and> 0.5 \<le> snd (classify cp pass)
       \<and> diag_pattern d = fst (classify cp pass)
       \<and> diag_percent d = snd (classify cp pass) * 100"
    by (intro bexI [of _ fl] bexI [of _ cp]) auto
next
  fix cp
  assume "fst (classify cp pass) = Unknown \<or> snd (classify cp pass) < 0.5"
  then show "run_producer pass cp = []"
    by (cases "classify cp pass") (auto simp: run_producer_def)
qed

theorem run_reports_above_threshold_witness:
  "run idgen_pass =
     [\<lparr>diag_pos = 40, diag_pattern = IDGenerator, diag_replacement = ''atomic.AddInt64'',
       diag_speedup = ''~38x'', diag_percent = 95\<rparr>]
   \<and> detect idgen_pass \<lparr>Decls = [FuncDeclD idgen_fn]\<rparr> = [idgen_cp]
   \<and> classify idgen_cp idgen_pass = (IDGenerator, 0.95)
   \<and> detect square_pass \<lparr>Decls = [FuncDeclD square_fn]\<rparr> = [square_cp]
   \<and> classify square_cp square_pass = (Unknown, 0)
   \<and> run_producer square_pass square_cp = []
   \<and> run square_pass = []"
proof -
  have r: "run idgen_pass =
     [\<lparr>diag_pos = 40, diag_pattern = IDGenerator, diag_replacement = ''atomic.AddInt64'',
       diag_speedup = ''~38x'', diag_percent = 95\<rparr>]" by code_simp
  have dt: "detect idgen_pass \<lparr>Decls = [FuncDeclD idgen_fn]\<rparr> = [idgen_cp]" by code_simp
  have c1: "classify idgen_cp idgen_pass = (IDGenerator, 0.95)" by code_simp
  have ds: "detect square_pass \<lparr>Decls = [FuncDeclD square_fn]\<rparr> = [square_cp]" by code_simp
  have c2: "classify square_cp square_pass = (Unknown, 0)" by code_simp
  from run_reports_above_threshold [of square_pass] c2
  have none: "run_producer square_pass square_cp = []" by simp
  have fs: "Files square_pass = [\<lparr>Decls = [FuncDeclD square_fn]\<rparr>]"
    by (simp add: square_pass_def pass_of_def)
  from none ds fs have "run square_pass = []"
    by (simp add: run_def run_file_def)
  with r dt c1 ds c2 none show ?thesis by simp
qed

section \<open>The multi-case coordination gate\<close>

lemma multi_select_classify:
  assumes "snd (funcLit cp) = Some body"
    and "m \<in> set (subnodes (BlockNode body))"
    and "isMultiSelect m"
  shows "classify cp pass = (Unknown, 0)"
proof -
  from assms(2,3) have "containsMultiCaseSelect body"
    by (auto simp: containsMultiCaseSelect_iff)
  with assms(1) show ?thesis by (simp add: classify_def)
qed

lemma classify_Unknown_silent:
  "classify cp pass = (Unknown, 0) \<Longrightarrow> run_producer pass cp = []"
  by (simp add: run_producer_def)

text \<open>
  Claim C3, as the specification states it: a select statement with two or more
  alternatives anywhere in the function body silences the function. It fails for a select
  statement outside the spawned function literal: the run reports the generator
  \<open>gen_fn\<close>, whose body has such a statement at its top level.
\<close>

theorem select_in_function_body_counterexample:
  "Body gen_fn = Some gen_body
   \<and> gen_select \<in> set (subnodes (BlockNode gen_body))
   \<and> isMultiSelect gen_select
   \<and> run gen_pass =
       [\<lparr>diag_pos = 40, diag_pattern = IDGenerator, diag_replacement = ''atomic.AddInt64'',
         diag_speedup = ''~38x'', diag_percent = 95\<rparr>]"
proof -
  have "Body gen_fn = Some gen_body" by (simp add: gen_fn_def)
  moreover have "gen_select \<in> set (subnodes (BlockNode gen_body))" by code_simp
  moreover have "isMultiSelect gen_select" by code_simp
  moreover have "run gen_pass =
       [\<lparr>diag_pos = 40, diag_pattern = IDGenerator, diag_replacement = ''atomic.AddInt64'',
         diag_speedup = ''~38x'', diag_percent = 95\<rparr>]" by code_simp
  ultimately show ?thesis by simp
qed

text \<open>
  Claim C3, amended: when the body of the function literal spawned by the function's
  only go statement contains, at any depth, a select statement with two or more
  clauses, the run reports nothing for the function.
\<close>

theorem select_in_task_body_silences:
  assumes "Body fn = Some fbody"
    and "spawns (List fbody) = [(p, FuncLit t (Some body), args)]"
    and "m \<in> set (subnodes (BlockNode body))"
    and "isMultiSelect m"
  shows "diagnostics_of pass (FuncDeclD fn) = []"
proof (cases "detect_func pass fn")
  case None
  then show ?thesis by simp
next
  case (Some cp)
  from Some obtain fbody' p' args' where
    "Body fn = Some fbody'"
    "spawns (List fbody') = [(p', FuncLit (fst (funcLit cp)) (snd (funcLit cp)), args')]"
    by (rule detect_func_SomeD)
  with assms(1,2) have "snd (funcLit cp) = Some body" by simp
  from multi_select_classify [OF this assms(3,4)]
  have "run_producer pass cp = []" by (rule classify_Unknown_silent)
  with Some show ?thesis by simp
qed

theorem select_in_task_body_silences_witness:
  "Body pool_fn = Some (66,
        [AssignStmt [Ident (MkIdent 69 ''out'')] token_DEFINE
           [CallExpr (Ident (MkIdent 76 ''make''))
              [ChanType 81 (Ident (MkIdent 86 ''int''))]],
         GoStmt 88 (FuncLit (FuncType 91 [OtherNode 95 []]) (Some pool_task)) [],
         ReturnStmt 200 [Ident (MkIdent 207 ''out'')]])
   \<and> pool_select \<in> set (subnodes (BlockNode pool_task))
   \<and> isMultiSelect pool_select
   \<and> diagnostics_of pool_pass (FuncDeclD pool_fn) = []
   \<and> run pool_pass = []"
proof -
  let ?b = "(66,
        [AssignStmt [Ident (MkIdent 69 ''out'')] token_DEFINE
           [CallExpr (Ident (MkIdent 76 ''make''))
              [ChanType 81 (Ident (MkIdent 86 ''int''))]],
         GoStmt 88 (FuncLit (FuncType 91 [OtherNode 95 []]) (Some pool_task)) [],
         ReturnStmt 200 [Ident (MkIdent 207 ''out'')]])"
  have b: "Body pool_fn = Some ?b" by (simp add: pool_fn_def)
  have s: "spawns (List ?b) = [(88, FuncLit (FuncType 91 [OtherNode 95 []]) (Some pool_task), [])]"
    by (simp add: spawns_def List_def)
  have m: "pool_select \<in> set (subnodes (BlockNode pool_task))" by code_simp
  have i: "isMultiSelect pool_select" by code_simp
  from select_in_task_body_silences [OF b s m i]
  have d: "diagnostics_of pool_pass (FuncDeclD pool_fn) = []" .
  then have "run pool_pass = []"
    by (simp add: run_def run_file_by_decl pool_pass_def pass_of_def)
  with b m i d show ?thesis by simp
qed

text \<open>
  Claim C9. A default clause is a clause like any other: when the task body contains a
  select statement with one communication clause and a default clause, the gate
  returns true, the producer is classified (Unknown, 0) and gets no diagnostic.
\<close>

theorem default_clause_counts:
  assumes "snd (funcLit cp) = Some body"
    and "SelectStmt p (Some sbody) \<in> set (subnodes (BlockNode body))"
    and "length (filter isCommCase (List sbody)) = 1"
    and "length (filter isDefaultClause (List sbody)) = 1"
  shows "containsMultiCaseSelect body \<and> classify cp pass = (Unknown, 0)
     \<and> run_producer pass cp = []"
proof -
  have disj: "\<not> (isCommCase c \<and> isDefaultClause c)" for c
  proof (cases c)
    case (CommClause q comm b)
    then show ?thesis by (cases comm) auto
  qed auto
  have "length (filter isCommCase xs) + length (filter isDefaultClause xs) \<le> length xs"
    for xs
    using disj by (induction xs) auto
  from this [of "List sbody"] assms(3,4) have "isMultiSelect (SelectStmt p (Some sbody))"
    by simp
  with assms(2) have g: "containsMultiCaseSelect body"
    unfolding containsMultiCaseSelect_iff by blast
  with assms(1) have "classify cp pass = (Unknown, 0)" by (simp add: classify_def)
  with g show ?thesis by (simp add: run_producer_def)
qed

theorem default_clause_counts_witness:
  "SelectStmt 70 (Some (77,
       [CommClause 80 (Some (SendStmt (Ident (MkIdent 85 ''ch'')) (BasicLit 91 token_INT ''1'')))
          [],
        CommClause 95 None []])) \<in> set (subnodes (BlockNode trygen_task))
   \<and> map_option (snd \<circ> funcLit) (detect_func trygen_pass trygen_fn) = Some (Some trygen_task)
   \<and> containsMultiCaseSelect trygen_task
   \<and> map_option (\<lambda>cp. classify cp trygen_pass) (detect_func trygen_pass trygen_fn)
       = Some (Unknown, 0)
   \<and> run trygen_pass = []"
proof -
  let ?sb = "(77,
       [CommClause 80 (Some (SendStmt (Ident (MkIdent 85 ''ch'')) (BasicLit 91 token_INT ''1'')))
          [],
        CommClause 95 None []])"
  obtain cp where cp: "detect_func trygen_pass trygen_fn = Some cp"
    and b: "snd (funcLit cp) = Some trygen_task"
  proof -
    have "map_option (snd \<circ> funcLit) (detect_func trygen_pass trygen_fn)
        = Some (Some trygen_task)" by code_simp
    then show thesis using that by auto
  qed
  have m: "SelectStmt 70 (Some ?sb) \<in> set (subnodes (BlockNode trygen_task))" by code_simp
  have c: "length (filter isCommCase (List ?sb)) = 1" by (simp add: List_def)
  have d: "length (filter isDefaultClause (List ?sb)) = 1" by (simp add: List_def)
  from default_clause_counts [OF b m c d, of trygen_pass]
  have g: "containsMultiCaseSelect trygen_task" "classify cp trygen_pass = (Unknown, 0)"
    "run_producer trygen_pass cp = []" by simp_all
  from g(3) cp have "run trygen_pass = []"
    by (simp add: run_def run_file_by_decl trygen_pass_def pass_of_def)
  with cp b m g show ?thesis by simp
qed

section \<open>The pipeline-stage gate\<close>

lemma isChanIdentRange_iff:
  "isChanIdentRange pass m \<longleftrightarrow>
     (\<exists>p k v i b t obj. m = RangeStmt p k v (Ident i) b \<and> Types pass (Ident i) = Some t
        \<and> isChan (Underlying t) \<and> ObjectOf pass i = Some obj)"
proof (cases m)
  case (RangeStmt p k v x b)
  then show ?thesis by (cases x) (auto split: option.splits)
qed auto

lemma isChanIdentRange_target:
  "isChanIdentRange pass m \<Longrightarrow> \<exists>x. rangeTarget m = Some x \<and> asIdent x \<noteq> None"
  by (auto simp: isChanIdentRange_iff)

text \<open>
  Claim C4, as the specification states it: the gate is tripped by loops over channel
  parameters only, not by a loop over a channel identifier that is not a parameter. In
  \<open>relay_task\<close> the only range statement iterates over the local variable \<^verbatim>\<open>src\<close>, and
  the gate returns true; nothing is reported.
\<close>

theorem local_channel_trips_gate_counterexample:
  "filter isRangeStmt (subnodes (BlockNode relay_task)) = [relay_loop]
   \<and> rangeTarget relay_loop = Some (Ident (MkIdent 100 ''src''))
   \<and> ObjectOf relay_pass (MkIdent 100 ''src'') = Some (Var LocalVar (TChan (TBasic ''int'')))
   \<and> rangesOverChannel relay_task relay_pass
   \<and> run relay_pass = []"
proof -
  have "filter isRangeStmt (subnodes (BlockNode relay_task)) = [relay_loop]" by code_simp
  moreover have "rangeTarget relay_loop = Some (Ident (MkIdent 100 ''src''))"
    by (simp add: relay_loop_def)
  moreover have "ObjectOf relay_pass (MkIdent 100 ''src'')
      = Some (Var LocalVar (TChan (TBasic ''int'')))"
    by (simp add: relay_pass_def pass_of_def)
  moreover have "rangesOverChannel relay_task relay_pass" by code_simp
  moreover have "run relay_pass = []" by code_simp
  ultimately show ?thesis by simp
qed

text \<open>
  Claim C4, amended: the gate returns true exactly when the task body contains, at any
  depth, a range statement whose iteration target is a bare identifier that has type
  information with a channel as underlying type and that resolves to an object, whether
  a parameter or not; in particular a body whose range statements all iterate over
  something other than a bare identifier (a field access, say) passes the gate.
\<close>

theorem pipeline_gate_iff:
  "(rangesOverChannel body pass \<longleftrightarrow>
      (\<exists>m\<in>set (subnodes (BlockNode body)). \<exists>p k v i b t obj.
          m = RangeStmt p k v (Ident i) b \<and> Types pass (Ident i) = Some t
          \<and> isChan (Underlying t) \<and> ObjectOf pass i = Some obj))
   \<and> ((\<forall>m\<in>set (subnodes (BlockNode body)). \<forall>x. rangeTarget m = Some x \<longrightarrow> asIdent x = None)
        \<longrightarrow> \<not> rangesOverChannel body pass)"
proof
  show "rangesOverChannel body pass \<longleftrightarrow>
      (\<exists>m\<in>set (subnodes (BlockNode body)). \<exists>p k v i b t obj.
          m = RangeStmt p k v (Ident i) b \<and> Types pass (Ident i) = Some t
          \<and> isChan (Underlying t) \<and> ObjectOf pass i = Some obj)"
    by (simp add: rangesOverChannel_iff isChanIdentRange_iff)
  show "(\<forall>m\<in>set (subnodes (BlockNode body)). \<forall>x. rangeTarget m = Some x \<longrightarrow> asIdent x = None)
        \<longrightarrow> \<not> rangesOverChannel body pass"
  proof (intro impI notI)
    assume none: "\<forall>m\<in>set (subnodes (BlockNode body)). \<forall>x. rangeTarget m = Some x \<longrightarrow> asIdent x = None"
    assume "rangesOverChannel body pass"
    then obtain m where m: "m \<in> set (subnodes (BlockNode body))" "isChanIdentRange pass m"
      by (auto simp: rangesOverChannel_iff)
    from isChanIdentRange_target [OF m(2)] obtain x where
      x: "rangeTarget m = Some x" "asIdent x \<noteq> None" by blast
    from none m(1) have "\<forall>y. rangeTarget m = Some y \<longrightarrow> asIdent y = None" by (rule bspec)
    with x(1) have "asIdent x = None" by simp
    with x(2) show False by simp
  qed
qed

theorem pipeline_gate_iff_witness:
  "square_loop \<in> set (subnodes (BlockNode square_task))
   \<and> square_loop = RangeStmt 84 (Some (Ident (MkIdent 88 ''v''))) None (Ident (MkIdent 99 ''in''))
       (102, [SendStmt (Ident (MkIdent 107 ''out''))
                (BinaryExpr (Ident (MkIdent 114 ''v'')) token_MUL
                   (Ident (MkIdent 118 ''v'')))])
   \<and> Types square_pass (Ident (MkIdent 99 ''in'')) = Some (TChan (TBasic ''int''))
   \<and> ObjectOf square_pass (MkIdent 99 ''in'') = Some (Var ParamVar (TChan (TBasic ''int'')))
   \<and> rangesOverChannel square_task square_pass
   \<and> filter isRangeStmt (subnodes (BlockNode limiter_task)) = [limiter_loop]
   \<and> rangeTarget limiter_loop = Some ticker_C
   \<and> map_option (isChan \<circ> Underlying) (Types limiter_pass ticker_C) = Some True
   \<and> asIdent ticker_C = None
   \<and> \<not> rangesOverChannel limiter_task limiter_pass"
proof -
  have a: "square_loop \<in> set (subnodes (BlockNode square_task))" by code_simp
  have b: "square_loop = RangeStmt 84 (Some (Ident (MkIdent 88 ''v''))) None
       (Ident (MkIdent 99 ''in''))
       (102, [SendStmt (Ident (MkIdent 107 ''out''))
                (BinaryExpr (Ident (MkIdent 114 ''v'')) token_MUL
                   (Ident (MkIdent 118 ''v'')))])"
    by (simp add: square_loop_def)
  have c: "Types square_pass (Ident (MkIdent 99 ''in'')) = Some (TChan (TBasic ''int''))"
    by (simp add: square_pass_def pass_of_def square_scope_def)
  have d: "ObjectOf square_pass (MkIdent 99 ''in'') = Some (Var ParamVar (TChan (TBasic ''int'')))"
    by (simp add: square_pass_def pass_of_def square_scope_def)
  have "\<exists>p k v i b t obj. square_loop = RangeStmt p k v (Ident i) b
      \<and> Types square_pass (Ident i) = Some t \<and> isChan (Underlying t)
      \<and> ObjectOf square_pass i = Some obj"
    by (intro exI conjI, rule b, rule c, simp, rule d)
  with a have "\<exists>m\<in>set (subnodes (BlockNode square_task)). \<exists>p k v i b t obj.
      m = RangeStmt p k v (Ident i) b
      \<and> Types square_pass (Ident i) = Some t \<and> isChan (Underlying t)
      \<and> ObjectOf square_pass i = Some obj"
    by (rule_tac bexI)
  with pipeline_gate_iff [of square_task square_pass]
  have e: "rangesOverChannel square_task square_pass" by (simp only:)
  have f: "filter isRangeStmt (subnodes (BlockNode limiter_task)) = [limiter_loop]"
    by code_simp
  have g: "rangeTarget limiter_loop = Some ticker_C" by (simp add: limiter_loop_def)
  have h: "map_option (isChan \<circ> Underlying) (Types limiter_pass ticker_C) = Some True"
    by (simp add: limiter_pass_def Let_def)
  have i: "asIdent ticker_C = None" by (simp add: ticker_C_def)
  have all: "\<forall>m\<in>set (subnodes (BlockNode limiter_task)). \<forall>x. rangeTarget m = Some x \<longrightarrow> asIdent x = None"
  proof (intro ballI allI impI)
    fix m x
    assume m: "m \<in> set (subnodes (BlockNode limiter_task))" and x: "rangeTarget m = Some x"
    from x have "isRangeStmt m" by (cases m) auto
    with m have "m \<in> set (filter isRangeStmt (subnodes (BlockNode limiter_task)))" by simp
    with f have "m = limiter_loop" by simp
    with x g i show "asIdent x = None" by simp
  qed
  have j: "\<not> rangesOverChannel limiter_task limiter_pass"
    by (rule pipeline_gate_iff [of limiter_task limiter_pass, THEN conjunct2, THEN mp, OF all])
  show ?thesis
    by (intro conjI) (rule a, rule b, rule c, rule d, rule e, rule f, rule g, rule h, rule i, rule j)
qed

section \<open>Missing type information\<close>

lemma modulo_fold_hasRange: "hasRange (fold modulo_step rhs ind) = hasRange ind"
  by (induction rhs arbitrary: ind) (auto simp: modulo_step_def split: option.splits)

lemma extractIndicators_node_hasRange:
  "hasRange (extractIndicators_node chanName pass n ind) \<longleftrightarrow>
     hasRange ind \<or> rangeCounts pass n"
  by (cases n)
     (auto simp: modulo_fold_hasRange close_check_def time_check_def split: option.splits)

lemma fold_hasRange:
  "hasRange (fold (extractIndicators_node chanName pass) xs ind) \<longleftrightarrow>
     hasRange ind \<or> (\<exists>m\<in>set xs. rangeCounts pass m)"
  by (induction xs arbitrary: ind) (auto simp: extractIndicators_node_hasRange)

lemma hasRange_iff:
  "hasRange (extractIndicators body chanName pass) \<longleftrightarrow>
     (\<exists>m\<in>set (subnodes (BlockNode body)). rangeCounts pass m)"
  by (simp add: extractIndicators_fold fold_hasRange indicators_zero_def)

text \<open>
  Claim C8. A range statement of the task body whose iteration target has no type
  information sets \<open>hasRange\<close>, and does not trip the pipeline-stage gate: the visit of
  that statement leaves the gate's flag unset, and when the gate does return true, a
  range statement whose target has type information is in the body.
\<close>

theorem missing_type_info_asymmetry:
  assumes "r \<in> set (subnodes (BlockNode body))"
    and "rangeTarget r = Some x"
    and "Types pass x = None"
  shows "hasRange (extractIndicators body chanName pass)
     \<and> rangesOverChannel_visit pass (Some r) False = (True, False)
     \<and> (rangesOverChannel body pass \<longrightarrow>
          (\<exists>m\<in>set (subnodes (BlockNode body)). \<exists>y t.
              m \<noteq> r \<and> rangeTarget m = Some y \<and> Types pass y = Some t))"
proof (intro conjI impI)
  from assms(2,3) have "rangeCounts pass r" by (cases r) auto
  with assms(1) show "hasRange (extractIndicators body chanName pass)"
    unfolding hasRange_iff by blast
  from assms(2,3) have no: "\<not> isChanIdentRange pass r"
    by (auto simp: isChanIdentRange_iff)
  then show "rangesOverChannel_visit pass (Some r) False = (True, False)"
    by (simp add: rangesOverChannel_visit_False)
  assume "rangesOverChannel body pass"
  then obtain m where m: "m \<in> set (subnodes (BlockNode body))" "isChanIdentRange pass m"
    unfolding rangesOverChannel_iff by blast
  from m(2) no have "m \<noteq> r" by blast
  moreover from m(2) have "\<exists>y t. rangeTarget m = Some y \<and> Types pass y = Some t"
    by (auto simp: isChanIdentRange_iff)
  ultimately show "\<exists>m\<in>set (subnodes (BlockNode body)). \<exists>y t.
              m \<noteq> r \<and> rangeTarget m = Some y \<and> Types pass y = Some t"
    using m(1) by blast
qed

theorem missing_type_info_asymmetry_witness:
  "iterate_loop \<in> set (subnodes (BlockNode iterate_task))
   \<and> rangeTarget iterate_loop = Some (Ident (MkIdent 108 ''items''))
   \<and> Types iterate_pass (Ident (MkIdent 108 ''items'')) = None
   \<and> hasRange (extractIndicators iterate_task ''ch'' iterate_pass)
   \<and> rangesOverChannel_visit iterate_pass (Some iterate_loop) False = (True, False)
   \<and> \<not> rangesOverChannel iterate_task iterate_pass
   \<and> map diag_pattern (run iterate_pass) = [BoundedIterator]"
proof -
  have a: "iterate_loop \<in> set (subnodes (BlockNode iterate_task))" by code_simp
  have b: "rangeTarget iterate_loop = Some (Ident (MkIdent 108 ''items''))"
    by (simp add: iterate_loop_def)
  have c: "Types iterate_pass (Ident (MkIdent 108 ''items'')) = None"
    by (simp add: iterate_pass_def pass_of_def)
  note t = missing_type_info_asymmetry [OF a b c, of "''ch''"]
  have d: "\<not> rangesOverChannel iterate_task iterate_pass" by code_simp
  have e: "map diag_pattern (run iterate_pass) = [BoundedIterator]" by code_simp
  from t have f: "hasRange (extractIndicators iterate_task ''ch'' iterate_pass)"
    and g: "rangesOverChannel_visit iterate_pass (Some iterate_loop) False = (True, False)"
    by (rule conjunct1, rule conjunct2 [THEN conjunct1])
  show ?thesis
    by (intro conjI) (rule a, rule b, rule c, rule f, rule g, rule d, rule e)
qed

section \<open>Which channel-creating assignment is taken\<close>

lemma extractMakeChan_SomeD:
  assumes "extractMakeChan lhs tok rhs = Some (idn, p, buf)"
  shows "lhs = [Ident idn] \<and> p = NamePos idn \<and> p = Pos_node (AssignStmt lhs tok rhs)"
proof -
  from assms have len: "length lhs = 1"
    by (auto simp: extractMakeChan_def split: if_splits)
  then obtain x where x: "lhs = [x]" by (cases lhs) auto
  from assms x have "asIdent x = Some idn"
    by (auto simp: extractMakeChan_def Let_def split: if_splits option.splits)
  then have "x = Ident idn" by (cases x) auto
  with x assms show ?thesis
    by (auto simp: extractMakeChan_def Let_def split: if_splits option.splits)
qed

lemma valid_makes_member:
  "v \<in> set (valid_makes stmts) \<longleftrightarrow>
     (\<exists>lhs tok rhs. AssignStmt lhs tok rhs \<in> set stmts \<and> extractMakeChan lhs tok rhs = Some v)"
proof (induction stmts)
  case Nil
  then show ?case by (simp add: valid_makes_def)
next
  case (Cons s stmts)
  have one: "makeChan_of s = Some v \<longleftrightarrow>
      (\<exists>lhs tok rhs. s = AssignStmt lhs tok rhs \<and> extractMakeChan lhs tok rhs = Some v)"
    by (cases s) auto
  have "v \<in> set (valid_makes (s # stmts)) \<longleftrightarrow>
      makeChan_of s = Some v \<or> v \<in> set (valid_makes stmts)"
    by (cases "makeChan_of s") (auto simp: valid_makes_Cons)
  also have "\<dots> \<longleftrightarrow> (\<exists>lhs tok rhs. AssignStmt lhs tok rhs \<in> set (s # stmts)
      \<and> extractMakeChan lhs tok rhs = Some v)"
    unfolding one Cons.IH by auto
  finally show ?case .
qed

lemma extractMakeChan_rhs:
  assumes "extractMakeChan lhs tok rhs = Some v"
  shows "\<exists>mk args. rhs = [CallExpr (Ident mk) args] \<and> Name mk = ''make''"
proof -
  from assms have "length rhs = 1"
    by (auto simp: extractMakeChan_def split: if_splits)
  then obtain y where y: "rhs = [y]" by (cases rhs) auto
  from assms y obtain f args where c: "asCallExpr y = Some (f, args)"
    by (auto simp: extractMakeChan_def Let_def split: if_splits option.splits)
  then have yc: "y = CallExpr f args" by (cases y) auto
  from assms y c obtain mk where m: "asIdent f = Some mk" "Name mk = ''make''"
    by (auto simp: extractMakeChan_def Let_def split: if_splits option.splits)
  from m(1) have "f = Ident mk" by (cases f) auto
  with y yc m(2) show ?thesis by simp
qed

text \<open>
  Claim C5. Of several valid channel-creating assignments at the top level the first
  is to be taken. \<open>pair_fn\<close> has two, \<^verbatim>\<open>a\<close> with buffer size 1 and then \<^verbatim>\<open>b\<close> with buffer
  size 2, and the producer \<^verbatim>\<open>detect\<close> emits for it has the name, the position and the
  buffer size of \<^verbatim>\<open>b\<close>: the loop over the statements overwrites what it found before.
\<close>

theorem pair_second_make_is_taken:
  "Body pair_fn = Some pair_body
   \<and> valid_makes (List pair_body) = [(MkIdent 44 ''a'', 44, 1), (MkIdent 69 ''b'', 69, 2)]
   \<and> map_option chanIdent (detect_func pair_pass pair_fn) = Some (MkIdent 69 ''b'')
   \<and> map_option makePos (detect_func pair_pass pair_fn) = Some 69
   \<and> map_option bufSize (detect_func pair_pass pair_fn) = Some 2"
proof -
  have "Body pair_fn = Some pair_body" by (simp add: pair_fn_def)
  moreover have "valid_makes (List pair_body)
      = [(MkIdent 44 ''a'', 44, 1), (MkIdent 69 ''b'', 69, 2)]" by code_simp
  moreover have "map_option chanIdent (detect_func pair_pass pair_fn) = Some (MkIdent 69 ''b'')"
    by code_simp
  moreover have "map_option makePos (detect_func pair_pass pair_fn) = Some 69" by code_simp
  moreover have "map_option bufSize (detect_func pair_pass pair_fn) = Some 2" by code_simp
  ultimately show ?thesis by simp
qed

section \<open>The anchor of a diagnostic\<close>

lemma asIdent_Some: "asIdent n = Some i \<longleftrightarrow> n = Ident i"
  by (cases n) auto

lemma idents_member: "i \<in> set (idents ns) \<longleftrightarrow> Ident i \<in> set ns"
  by (induction ns) (auto simp: idents_def asIdent_Some split: option.splits)

lemma idents_append: "idents (xs @ ys) = idents xs @ idents ys"
  by (induction xs) (auto simp: idents_def split: option.splits)

lemma idents_concat: "idents (concat xss) = concat (map idents xss)"
proof (induction xss)
  case Nil
  then show ?case by (simp add: idents_def)
next
  case (Cons xs xss)
  then show ?case by (simp add: idents_append)
qed

lemma idents_block:
  "idents (subnodes (BlockNode fbody)) = concat (map (\<lambda>s. idents (subnodes s)) (List fbody))"
proof -
  have "subnodes (BlockNode fbody) = BlockNode fbody # concat (map subnodes (List fbody))"
    by (subst subnodes.simps) (simp add: BlockNode_def)
  moreover have "idents (BlockNode fbody # ns) = idents ns" for ns
    by (simp add: idents_def BlockNode_def)
  ultimately have "idents (subnodes (BlockNode fbody))
      = idents (concat (map subnodes (List fbody)))" by simp
  then show ?thesis by (simp add: idents_concat comp_def)
qed

lemma distinct_concat_part:
  "distinct (concat (map g xs)) \<Longrightarrow> a \<in> set xs \<Longrightarrow> distinct (g a)"
  by (induction xs) auto

lemma distinct_concat_apart:
  "distinct (concat (map g xs)) \<Longrightarrow> a \<in> set xs \<Longrightarrow> b \<in> set xs \<Longrightarrow> a \<noteq> b \<Longrightarrow>
     set (g a) \<inter> set (g b) = {}"
  by (induction xs) auto

lemma spawns_member:
  "(p, f, args) \<in> set (spawns stmts) \<longleftrightarrow> GoStmt p f args \<in> set stmts"
proof (induction stmts)
  case Nil
  then show ?case by (simp add: spawns_def)
next
  case (Cons s stmts)
  have one: "goStmt_of s = Some (p, f, args) \<longleftrightarrow> s = GoStmt p f args"
    by (cases s) auto
  have "(p, f, args) \<in> set (spawns (s # stmts)) \<longleftrightarrow>
      goStmt_of s = Some (p, f, args) \<or> (p, f, args) \<in> set (spawns stmts)"
    by (cases "goStmt_of s") (auto simp: spawns_Cons)
  also have "\<dots> \<longleftrightarrow> GoStmt p f args \<in> set (s # stmts)"
    unfolding one Cons.IH by auto
  finally show ?case .
qed

lemma isSendOn_shape: "isSendOn chanName s \<Longrightarrow> \<exists>i v. s = SendStmt (Ident i) v"
proof (cases s)
  case (SendStmt c v)
  assume "isSendOn chanName s"
  with SendStmt show ?thesis by (cases c) auto
qed auto

lemma subnodes_Ident: "subnodes (Ident i) = [Ident i]"
  by (subst subnodes.simps) simp

lemma subnodes_CallExpr:
  "subnodes (CallExpr f args) = CallExpr f args # subnodes f @ concat (map subnodes args)"
  by (subst subnodes.simps) simp

lemma subnodes_AssignStmt:
  "subnodes (AssignStmt lhs tok rhs) =
     AssignStmt lhs tok rhs # concat (map subnodes lhs) @ concat (map subnodes rhs)"
  by (subst subnodes.simps) simp

text \<open>
  In a function body whose identifier occurrences stand at different positions, the
  start of a channel-creating assignment is not the start of its allocation call.
\<close>

lemma assignment_not_at_call:
  assumes "distinct_ident_positions fbody"
    and "AssignStmt [Ident idn] tok [CallExpr (Ident mk) args] \<in> set (List fbody)"
  shows "NamePos idn \<noteq> Pos_node (CallExpr (Ident mk) args)"
proof -
  let ?A = "AssignStmt [Ident idn] tok [CallExpr (Ident mk) args]"
  let ?g = "\<lambda>s. map NamePos (idents (subnodes s))"
  from assms(1) have "distinct (concat (map ?g (List fbody)))"
    by (simp add: distinct_ident_positions_def idents_block map_concat comp_def)
  from distinct_concat_part [OF this assms(2)] have d: "distinct (?g ?A)" .
  have "subnodes ?A =
      ?A # Ident idn # CallExpr (Ident mk) args # Ident mk # concat (map subnodes args)"
    by (simp add: subnodes_AssignStmt subnodes_CallExpr subnodes_Ident)
  then have "idents (subnodes ?A) = idn # mk # idents (concat (map subnodes args))"
    by (simp add: idents_def)
  with d show ?thesis by auto
qed

text \<open>... and it is not the start of a send statement inside the spawned literal.\<close>

lemma assignment_not_at_send:
  assumes "distinct_ident_positions fbody"
    and "AssignStmt [Ident idn] tok rhs \<in> set (List fbody)"
    and "GoStmt p (FuncLit t b) args \<in> set (List fbody)"
    and "s \<in> set (subnodes (FuncLit t b))"
    and "isSendOn chanName s"
  shows "NamePos idn \<noteq> Pos_node s"
proof -
  let ?A = "AssignStmt [Ident idn] tok rhs"
  let ?G = "GoStmt p (FuncLit t b) args"
  let ?g = "\<lambda>s. map NamePos (idents (subnodes s))"
  from assms(5) obtain i v where s: "s = SendStmt (Ident i) v"
    using isSendOn_shape by blast
  from assms(1) have "distinct (concat (map ?g (List fbody)))"
    by (simp add: distinct_ident_positions_def idents_block map_concat comp_def)
  from distinct_concat_apart [OF this assms(2,3)]
  have apart: "set (?g ?A) \<inter> set (?g ?G) = {}" by simp
  have "Ident idn \<in> set (subnodes ?A)"
    by (rule subnodes_child [of "Ident idn"]) (simp_all add: subnodes_self)
  then have a: "NamePos idn \<in> set (?g ?A)"
    by (simp add: idents_member)
  have "Ident i \<in> set (subnodes s)"
    unfolding s by (rule subnodes_child [of "Ident i"]) (simp_all add: subnodes_self)
  then have "Ident i \<in> set (subnodes (FuncLit t b))"
    using assms(4) by (rule subnodes_trans)
  then have "Ident i \<in> set (subnodes (CallExpr (FuncLit t b) args))"
    by (rule_tac subnodes_child [of "FuncLit t b"]) simp_all
  then have "Ident i \<in> set (subnodes ?G)"
    by (rule_tac subnodes_child [of "CallExpr (FuncLit t b) args"]) simp_all
  then have g: "NamePos i \<in> set (?g ?G)"
    by (simp add: idents_member)
  have "NamePos idn \<noteq> NamePos i"
  proof
    assume "NamePos idn = NamePos i"
    with g have "NamePos idn \<in> set (?g ?G)" by (simp only:)
    with a have "NamePos idn \<in> set (?g ?A) \<inter> set (?g ?G)" by (rule IntI)
    with apart show False by (simp only: empty_iff)
  qed
  then show ?thesis by (simp add: s)
qed

text \<open>
  Claim C6, as the specification states it: the diagnostic is anchored at the
  allocation call. For the generator of the test data the call \<^verbatim>\<open>make(chan int64)\<close>
  starts at position 46, and the diagnostic is anchored at position 40, where the
  assignment \<^verbatim>\<open>ch := make(chan int64)\<close> starts.
\<close>

theorem anchor_at_call_counterexample:
  "Body idgen_fn = Some (36,
        [AssignStmt [Ident (MkIdent 40 ''ch'')] token_DEFINE [idgen_make],
         GoStmt 64 (FuncLit (FuncType 67 [OtherNode 71 []]) (Some idgen_task)) [],
         ReturnStmt 130 [Ident (MkIdent 137 ''ch'')]])
   \<and> Pos_node idgen_make = 46
   \<and> Pos_node (AssignStmt [Ident (MkIdent 40 ''ch'')] token_DEFINE [idgen_make]) = 40
   \<and> map diag_pos (run idgen_pass) = [40]"
proof -
  have "map diag_pos (run idgen_pass) = [40]" by code_simp
  then show ?thesis by (simp add: idgen_fn_def idgen_body_def idgen_make_def)
qed

text \<open>
  Claim C6, amended: every diagnostic of a run is anchored at the position of a
  channel-creating assignment statement at the top level of the function its producer
  was detected in, which is the position of the identifier on the assignment's
  left-hand side; where the identifier occurrences of the function body stand at
  pairwise different positions, this is neither the position of the allocation call on
  the assignment's right-hand side nor the position of any send site of the producer.
\<close>

theorem anchor_at_assignment:
  assumes "d \<in> set (run pass)"
  shows "\<exists>file\<in>set (Files pass). \<exists>fn fbody cp lhs tok call idn buf.
     FuncDeclD fn \<in> set (Decls file) \<and> Body fn = Some fbody
     \<and> detect_func pass fn = Some cp \<and> d \<in> set (run_producer pass cp)
     \<and> AssignStmt lhs tok [call] \<in> set (List fbody)
     \<and> extractMakeChan lhs tok [call] = Some (idn, diag_pos d, buf)
     \<and> lhs = [Ident idn]
     \<and> diag_pos d = Pos_node (AssignStmt lhs tok [call])
     \<and> diag_pos d = NamePos idn
     \<and> (distinct_ident_positions fbody \<longrightarrow>
          diag_pos d \<noteq> Pos_node call \<and> (\<forall>s\<in>set (sends cp). diag_pos d \<noteq> Pos_node s))"
proof -
  from assms obtain fl cp where fl: "fl \<in> set (Files pass)" "cp \<in> set (detect pass fl)"
    and d: "d \<in> set (run_producer pass cp)"
    by (auto simp: run_member)
  from fl(2) obtain fn where fn: "FuncDeclD fn \<in> set (Decls fl)" "detect_func pass fn = Some cp"
    by (auto simp: detect_member)
  from run_producer_member [OF d] have pos: "diag_pos d = makePos cp" by simp
  from fn(2) obtain fbody p args where fb: "Body fn = Some fbody"
    and ne: "valid_makes (List fbody) \<noteq> []"
    and la: "last (valid_makes (List fbody)) = (chanIdent cp, makePos cp, bufSize cp)"
    and sp: "spawns (List fbody) = [(p, FuncLit (fst (funcLit cp)) (snd (funcLit cp)), args)]"
    and sn: "sends cp = collectSends (funcLit cp) (Name (chanIdent cp))"
    by (rule detect_func_SomeD)
  from ne la have "(chanIdent cp, makePos cp, bufSize cp) \<in> set (valid_makes (List fbody))"
    using last_in_set by fastforce
  then obtain lhs tok rhs where a: "AssignStmt lhs tok rhs \<in> set (List fbody)"
    and e: "extractMakeChan lhs tok rhs = Some (chanIdent cp, makePos cp, bufSize cp)"
    by (auto simp: valid_makes_member)
  from extractMakeChan_SomeD [OF e]
  have lhs: "lhs = [Ident (chanIdent cp)]" and np: "makePos cp = NamePos (chanIdent cp)"
    and ap: "makePos cp = Pos_node (AssignStmt lhs tok rhs)" by simp_all
  from extractMakeChan_rhs [OF e] obtain mk cargs where
    rhs: "rhs = [CallExpr (Ident mk) cargs]" by blast
  let ?call = "CallExpr (Ident mk) cargs"
  have go: "GoStmt p (FuncLit (fst (funcLit cp)) (snd (funcLit cp))) args \<in> set (List fbody)"
    using sp spawns_member [of p "FuncLit (fst (funcLit cp)) (snd (funcLit cp))" args "List fbody"]
    by simp
  have apart: "makePos cp \<noteq> Pos_node ?call \<and> (\<forall>s\<in>set (sends cp). makePos cp \<noteq> Pos_node s)"
    if wf: "distinct_ident_positions fbody"
  proof (intro conjI ballI)
    from assignment_not_at_call [OF wf] a lhs rhs np
    show "makePos cp \<noteq> Pos_node ?call" by simp
    fix s
    assume "s \<in> set (sends cp)"
    then have s: "s \<in> set (subnodes (FuncLit (fst (funcLit cp)) (snd (funcLit cp))))"
      "isSendOn (Name (chanIdent cp)) s"
      by (simp_all add: sn collectSends_filter)
    from a lhs have "AssignStmt [Ident (chanIdent cp)] tok rhs \<in> set (List fbody)" by simp
    from assignment_not_at_send [OF wf this go s] np
    show "makePos cp \<noteq> Pos_node s" by simp
  qed
  show ?thesis
  proof (intro bexI [of _ fl] exI conjI impI)
    show "fl \<in> set (Files pass)" by (rule fl(1))
    show "FuncDeclD fn \<in> set (Decls fl)" by (rule fn(1))
    show "Body fn = Some fbody" by (rule fb)
    show "detect_func pass fn = Some cp" by (rule fn(2))
    show "d \<in> set (run_producer pass cp)" by (rule d)
    show "AssignStmt lhs tok [?call] \<in> set (List fbody)" using a rhs by simp
    show "extractMakeChan lhs tok [?call] = Some (chanIdent cp, diag_pos d, bufSize cp)"
      using e rhs pos by simp
    show "lhs = [Ident (chanIdent cp)]" by (rule lhs)
    show "diag_pos d = Pos_node (AssignStmt lhs tok [?call])" using ap rhs pos by simp
    show "diag_pos d = NamePos (chanIdent cp)" using np pos by simp
  next
    assume "distinct_ident_positions fbody"
    from apart [OF this] pos show "diag_pos d \<noteq> Pos_node ?call" by simp
  next
    assume "distinct_ident_positions fbody"
    from apart [OF this] pos show "\<forall>s\<in>set (sends cp). diag_pos d \<noteq> Pos_node s" by simp
  qed
qed

theorem anchor_at_assignment_witness:
  "\<lparr>diag_pos = 40, diag_pattern = IDGenerator, diag_replacement = ''atomic.AddInt64'',
     diag_speedup = ''~38x'', diag_percent = 95\<rparr> \<in> set (run idgen_pass)
   \<and> Body idgen_fn = Some idgen_body
   \<and> distinct_ident_positions idgen_body
   \<and> detect_func idgen_pass idgen_fn = Some idgen_cp
   \<and> List idgen_body ! 0 = AssignStmt [Ident (MkIdent 40 ''ch'')] token_DEFINE [idgen_make]
   \<and> Pos_node (AssignStmt [Ident (MkIdent 40 ''ch'')] token_DEFINE [idgen_make]) = 40
   \<and> Pos_node idgen_make = 46
   \<and> map Pos_node (sends idgen_cp) = [108]"
proof -
  let ?d = "\<lparr>diag_pos = 40, diag_pattern = IDGenerator, diag_replacement = ''atomic.AddInt64'',
     diag_speedup = ''~38x'', diag_percent = 95\<rparr>"
  have r: "run idgen_pass = [?d]" by code_simp
  then have m: "?d \<in> set (run idgen_pass)" by simp
  note t = anchor_at_assignment [OF m]
  have b: "Body idgen_fn = Some idgen_body" by (simp add: idgen_fn_def)
  have w: "distinct_ident_positions idgen_body" by code_simp
  have c: "detect_func idgen_pass idgen_fn = Some idgen_cp" by code_simp
  have a: "List idgen_body ! 0
      = AssignStmt [Ident (MkIdent 40 ''ch'')] token_DEFINE [idgen_make]"
    by (simp add: idgen_body_def List_def)
  have p: "Pos_node (AssignStmt [Ident (MkIdent 40 ''ch'')] token_DEFINE [idgen_make]) = 40"
    by simp
  have q: "Pos_node idgen_make = 46" by (simp add: idgen_make_def)
  have s: "map Pos_node (sends idgen_cp) = [108]" by code_simp
  from t show ?thesis
    by (intro conjI) (rule m, rule b, rule w, rule c, rule a, rule p, rule q, rule s)
qed

section \<open>The buffer size\<close>

text \<open>
  Claim C7. The loop of \<^verbatim>\<open>extractMakeChan\<close> treats every character of an integer literal
  as a decimal digit. For \<^verbatim>\<open>make(chan int64, 0x10)\<close>, a literal that is not decimal, the
  producer's buffer size is 7210 rather than 0; for the decimal literal \<^verbatim>\<open>1_0\<close> (ten) it
  is 570. A literal of digits only, such as \<^verbatim>\<open>64\<close>, is read as its value.
\<close>

theorem buffer_size_of_other_literals:
  "map_option (sint \<circ> bufSize) (detect_func (sized_pass ''0x10'') (sized_fn ''0x10''))
     = Some 7210
   \<and> map_option (sint \<circ> bufSize) (detect_func (sized_pass ''1_0'') (sized_fn ''1_0''))
     = Some 570
   \<and> map_option (sint \<circ> bufSize) (detect_func (sized_pass ''64'') (sized_fn ''64''))
     = Some 64"
proof -
  have "map_option (sint \<circ> bufSize) (detect_func (sized_pass ''0x10'') (sized_fn ''0x10''))
     = Some 7210"
    by code_simp
  moreover have
    "map_option (sint \<circ> bufSize) (detect_func (sized_pass ''1_0'') (sized_fn ''1_0''))
     = Some 570"
    by code_simp
  moreover have
    "map_option (sint \<circ> bufSize) (detect_func (sized_pass ''64'') (sized_fn ''64''))
     = Some 64"
    by code_simp
  ultimately show ?thesis by simp
qed

section \<open>No check of what the function returns\<close>




end
